theory Spec2Isabelle
  imports Main "HOL-Library.Word" "HOL-Library.Signed_Division" "HOL-Library.Sublist"
begin

unbundle bit_operations_syntax

section \<open>Strings, runes and UTF-8\<close>

text \<open>
  A Go string is a sequence of bytes; it is modelled as a \<^typ>\<open>string\<close>, one
  \<^typ>\<open>char\<close> per byte.  A rune (Go's \<open>int32\<close> code point) is an integer.  The
  scanner of package \<open>fmt\<close> reads its input rune by rune, so the decoder and the
  encoder of package \<open>unicode/utf8\<close> are part of the model.
\<close>

type_synonym rune = int

definition byte :: "char \<Rightarrow> int" where
  "byte c = of_char c"

definition RuneError :: rune where
  "RuneError = 0xFFFD"

definition MaxRune :: rune where
  "MaxRune = 0x10FFFF"

definition RuneSelf :: int where
  "RuneSelf = 0x80"

text \<open>
  \<open>utf8.DecodeRuneInString\<close>: the rune at the head of the string and its width in
  bytes.  The lookup table \<open>first\<close> and the table \<open>acceptRanges\<close> of the library are
  written out as the byte ranges they stand for.  An invalid or truncated encoding gives
  \<open>(RuneError, 1)\<close>, the empty string gives \<open>(RuneError, 0)\<close>.
\<close>

definition seqSize :: "int \<Rightarrow> nat" where
  "seqSize b0 = (if b0 < 0xE0 then 2 else if b0 < 0xF0 then 3 else 4)"

definition acceptLo :: "int \<Rightarrow> int" where
  "acceptLo b0 = (if b0 = 0xE0 then 0xA0 else if b0 = 0xF0 then 0x90 else 0x80)"

definition acceptHi :: "int \<Rightarrow> int" where
  "acceptHi b0 = (if b0 = 0xED then 0x9F else if b0 = 0xF4 then 0x8F else 0xBF)"

definition contByte :: "int \<Rightarrow> bool" where
  "contByte b = (0x80 \<le> b \<and> b \<le> 0xBF)"

fun DecodeRuneInString :: "string \<Rightarrow> rune \<times> nat" where
  "DecodeRuneInString [] = (RuneError, 0)"
| "DecodeRuneInString (c0 # cs) =
     (let b0 = byte c0 in
      if b0 < RuneSelf then (b0, 1)
      else if b0 < 0xC2 \<or> 0xF4 < b0 then (RuneError, 1)
      else if length (c0 # cs) < seqSize b0 then (RuneError, 1)
      else
        (let b1 = byte (cs ! 0) in
         if b1 < acceptLo b0 \<or> acceptHi b0 < b1 then (RuneError, 1)
         else if seqSize b0 \<le> 2 then ((b0 mod 32) * 64 + b1 mod 64, 2)
         else
           (let b2 = byte (cs ! 1) in
            if \<not> contByte b2 then (RuneError, 1)
            else if seqSize b0 \<le> 3 then
              ((b0 mod 16) * 4096 + (b1 mod 64) * 64 + b2 mod 64, 3)
            else
              (let b3 = byte (cs ! 2) in
               if \<not> contByte b3 then (RuneError, 1)
               else ((b0 mod 8) * 262144 + (b1 mod 64) * 4096
                       + (b2 mod 64) * 64 + b3 mod 64, 4)))))"

definition chr :: "int \<Rightarrow> char" where
  "chr n = char_of n"

text \<open>\<open>utf8.ValidRune\<close> and \<open>utf8.AppendRune\<close>.\<close>

definition ValidRune :: "rune \<Rightarrow> bool" where
  "ValidRune r = ((0 \<le> r \<and> r < 0xD800) \<or> (0xDFFF < r \<and> r \<le> MaxRune))"

definition AppendRune :: "rune \<Rightarrow> string" where
  "AppendRune r =
     (if 0 \<le> r \<and> r \<le> 0x7F then [chr r]
      else if 0 \<le> r \<and> r \<le> 0x7FF then [chr (0xC0 + r div 64), chr (0x80 + r mod 64)]
      else if \<not> ValidRune r then [chr 0xEF, chr 0xBF, chr 0xBD]
      else if r \<le> 0xFFFF then
        [chr (0xE0 + r div 4096), chr (0x80 + (r div 64) mod 64), chr (0x80 + r mod 64)]
      else
        [chr (0xF0 + r div 262144), chr (0x80 + (r div 4096) mod 64),
         chr (0x80 + (r div 64) mod 64), chr (0x80 + r mod 64)])"

text \<open>\<open>utf8.ValidString\<close>: every rune of the string is correctly encoded.\<close>

lemma DecodeRuneInString_width:
  "s \<noteq> [] \<Longrightarrow> DecodeRuneInString s = (r, w) \<Longrightarrow> 1 \<le> w \<and> w \<le> length s"
  by (cases s) (auto simp: Let_def seqSize_def Suc_le_eq split: if_splits)

declare DecodeRuneInString.simps [simp del]

lemma DecodeRuneInString_pos: "(r, w) = DecodeRuneInString (c # cs) \<Longrightarrow> 0 < w"
  using DecodeRuneInString_width [of "c # cs" r w] by auto

function ValidString :: "string \<Rightarrow> bool" where
  "ValidString [] = True"
| "ValidString (c # cs) =
     (if byte c < RuneSelf then ValidString cs
      else (case DecodeRuneInString (c # cs) of
              (r, w) \<Rightarrow> w \<noteq> 1 \<and> ValidString (drop w (c # cs))))"
  by pat_completeness auto
termination
  by (relation "measure length") (auto dest: DecodeRuneInString_pos)

section \<open>The scanner of package \<open>fmt\<close>\<close>

text \<open>
  The errors a scan can end with: a \<open>scanError\<close> carrying a message, \<open>io.EOF\<close>,
  \<open>io.ErrUnexpectedEOF\<close>, and \<open>strconv.ErrSyntax\<close> (raised by \<open>strconv.Unquote\<close>).
  Inside the library these are panics recovered by \<open>errorHandler\<close>; here every
  scanning function returns \<open>Inl\<close> of the error instead.
\<close>

datatype error = errorString string | EOF | ErrUnexpectedEOF | ErrSyntax | ErrRange

text \<open>The table \<open>space\<close> of package \<open>fmt\<close> and \<open>isSpace\<close>.\<close>

definition space :: "(int \<times> int) list" where
  "space = [(0x0009, 0x000d), (0x0020, 0x0020), (0x0085, 0x0085), (0x00a0, 0x00a0),
            (0x1680, 0x1680), (0x2000, 0x200a), (0x2028, 0x2029), (0x202f, 0x202f),
            (0x205f, 0x205f), (0x3000, 0x3000)]"

definition isSpace :: "rune \<Rightarrow> bool" where
  "isSpace r = (0 \<le> r \<and> r < 65536 \<and> list_ex (\<lambda>(lo, hi). lo \<le> r \<and> r \<le> hi) space)"

text \<open>
  The scan state \<open>ss\<close> is the input that is left.  \<open>getRune\<close> returns \<open>None\<close> at the
  end of the input (the library's \<open>eof\<close>), otherwise the next rune and the input after
  it; \<open>UnreadRune\<close> is going on with the input as it was before the read.  No verb of
  the format scanned here carries a width, so the rune limit of the state stays at
  \<open>hugeWid\<close> (\<open>2^30\<close> runes) and is left out.
\<close>

definition getRune :: "string \<Rightarrow> (rune \<times> string) option" where
  "getRune s = (if s = [] then None
                else (case DecodeRuneInString s of (r, w) \<Rightarrow> Some (r, drop w s)))"

lemma getRune_shorter: "getRune s = Some (r, s') \<Longrightarrow> length s' < length s"
proof -
  assume a: "getRune s = Some (r, s')"
  then have ne: "s \<noteq> []" by (auto simp: getRune_def split: if_splits)
  obtain r0 w where d: "DecodeRuneInString s = (r0, w)" by (cases "DecodeRuneInString s")
  with a ne have "s' = drop w s" by (simp add: getRune_def)
  moreover have "1 \<le> w" using DecodeRuneInString_width [OF ne d] by simp
  ultimately show ?thesis using ne by (cases s) auto
qed

definition mustReadRune :: "string \<Rightarrow> error + (rune \<times> string)" where
  "mustReadRune s = (case getRune s of None \<Rightarrow> Inl ErrUnexpectedEOF | Some p \<Rightarrow> Inr p)"

definition notEOF :: "string \<Rightarrow> error + unit" where
  "notEOF s = (case getRune s of None \<Rightarrow> Inl EOF | Some _ \<Rightarrow> Inr ())"

definition peek :: "string \<Rightarrow> string \<Rightarrow> bool" where
  "peek ok s = (case getRune s of None \<Rightarrow> False
                | Some (r, _) \<Rightarrow> r < RuneSelf \<and> chr r \<in> set ok)"

text \<open>
  \<open>SkipSpace\<close>, with \<open>nlIsSpace\<close> false as \<open>Sscanf\<close> sets it: a newline in the input
  is an error, every other space is skipped.
\<close>

function SkipSpace :: "string \<Rightarrow> error + string" where
  "SkipSpace s =
     (case getRune s of
        None \<Rightarrow> Inr s
      | Some (r, s') \<Rightarrow>
          if r = 13 \<and> peek [CHR 0x0A] s' then SkipSpace s'
          else if r = 10 then Inl (errorString ''unexpected newline'')
          else if \<not> isSpace r then Inr s
          else SkipSpace s')"
  by pat_completeness auto
termination
  by (relation "measure length") (auto dest: getRune_shorter)

declare SkipSpace.simps [simp del]

text \<open>
  \<open>token(true, notSpace)\<close>: skip space, then read runes up to the next space or the end
  of the input.  The runes are written to the buffer with \<open>writeRune\<close>, so a byte that
  is not valid UTF-8 comes out as the encoding of \<open>RuneError\<close>.
\<close>

function readToken :: "string \<Rightarrow> string \<times> string" where
  "readToken s =
     (case getRune s of
        None \<Rightarrow> ([], s)
      | Some (r, s') \<Rightarrow>
          if isSpace r then ([], s)
          else (case readToken s' of (buf, rest) \<Rightarrow> (AppendRune r @ buf, rest)))"
  by pat_completeness auto
termination
  by (relation "measure length") (auto dest: getRune_shorter)

declare readToken.simps [simp del]

definition token :: "string \<Rightarrow> error + (string \<times> string)" where
  "token s = (case SkipSpace s of Inl e \<Rightarrow> Inl e | Inr s1 \<Rightarrow> Inr (readToken s1))"

subsection \<open>\<open>strconv.Unquote\<close>\<close>

definition unhex :: "char \<Rightarrow> int option" where
  "unhex b =
     (let c = byte b in
      if 48 \<le> c \<and> c \<le> 57 then Some (c - 48)
      else if 97 \<le> c \<and> c \<le> 102 then Some (c - 97 + 10)
      else if 65 \<le> c \<and> c \<le> 70 then Some (c - 65 + 10)
      else None)"

fun hexValue :: "string \<Rightarrow> int \<Rightarrow> int option" where
  "hexValue [] v = Some v"
| "hexValue (c # cs) v =
     (case unhex c of None \<Rightarrow> None | Some x \<Rightarrow> hexValue cs (v * 16 + x))"

fun octValue :: "string \<Rightarrow> int \<Rightarrow> int option" where
  "octValue [] v = Some v"
| "octValue (c # cs) v =
     (if byte c < 48 \<or> 55 < byte c then None else octValue cs (v * 8 + (byte c - 48)))"

text \<open>
  \<open>strconv.UnquoteChar\<close>: the first character or escape sequence of \<open>s\<close>, as
  \<open>(value, multibyte, tail)\<close>.
\<close>

definition UnquoteChar :: "string \<Rightarrow> char \<Rightarrow> error + (rune \<times> bool \<times> string)" where
  "UnquoteChar s quote =
     (case s of
        [] \<Rightarrow> Inl ErrSyntax
      | c # t \<Rightarrow>
          if c = quote \<and> (quote = CHR 0x27 \<or> quote = CHR 0x22) then Inl ErrSyntax
          else if byte c \<ge> RuneSelf then
            (case DecodeRuneInString s of (r, w) \<Rightarrow> Inr (r, True, drop w s))
          else if c \<noteq> CHR 0x5C then Inr (byte c, False, t)
          else
            (case t of
               [] \<Rightarrow> Inl ErrSyntax
             | e # u \<Rightarrow>
                 if e = CHR ''a'' then Inr (7, False, u)
                 else if e = CHR ''b'' then Inr (8, False, u)
                 else if e = CHR ''f'' then Inr (12, False, u)
                 else if e = CHR ''n'' then Inr (10, False, u)
                 else if e = CHR ''r'' then Inr (13, False, u)
                 else if e = CHR ''t'' then Inr (9, False, u)
                 else if e = CHR ''v'' then Inr (11, False, u)
                 else if e = CHR ''x'' \<or> e = CHR ''u'' \<or> e = CHR ''U'' then
                   (let n = (if e = CHR ''x'' then 2 else if e = CHR ''u'' then 4 else 8) in
                    if length u < n then Inl ErrSyntax
                    else
                      (case hexValue (take n u) 0 of
                         None \<Rightarrow> Inl ErrSyntax
                       | Some v \<Rightarrow>
                           if e = CHR ''x'' then Inr (v, False, drop n u)
                           else if \<not> ValidRune v then Inl ErrSyntax
                           else Inr (v, True, drop n u)))
                 else if 48 \<le> byte e \<and> byte e \<le> 55 then
                   (if length u < 2 then Inl ErrSyntax
                    else
                      (case octValue (take 2 u) (byte e - 48) of
                         None \<Rightarrow> Inl ErrSyntax
                       | Some v \<Rightarrow> if v > 255 then Inl ErrSyntax else Inr (v, False, drop 2 u)))
                 else if e = CHR 0x5C then Inr (92, False, u)
                 else if e = CHR 0x27 \<or> e = CHR 0x22 then
                   (if e \<noteq> quote then Inl ErrSyntax else Inr (byte e, False, u))
                 else Inl ErrSyntax))"

lemma UnquoteChar_shorter:
  "UnquoteChar s q = Inr (r, m, t) \<Longrightarrow> length t < length s"
  by (auto simp: UnquoteChar_def Let_def split: list.splits if_splits option.splits prod.splits
           dest: DecodeRuneInString_pos [OF sym])

text \<open>
  The loop of \<open>unquote\<close> over a double-quoted string with escape sequences: it stops
  in front of the closing quote (or at the end) and returns the unescaped bytes.
\<close>

function unquoteLoop :: "string \<Rightarrow> error + (string \<times> string)" where
  "unquoteLoop inp =
     (if inp = [] \<or> hd inp = CHR 0x22 then Inr ([], inp)
      else
        (case UnquoteChar inp (CHR 0x22) of
           Inl e \<Rightarrow> Inl ErrSyntax
         | Inr (r, multibyte, rem) \<Rightarrow>
             if hd inp = CHR 0x0A then Inl ErrSyntax
             else
               (case unquoteLoop rem of
                  Inl e \<Rightarrow> Inl e
                | Inr (buf, rest) \<Rightarrow>
                    Inr ((if r < RuneSelf \<or> \<not> multibyte then [chr r] else AppendRune r) @ buf,
                         rest))))"
  by pat_completeness auto
termination
  by (relation "measure length") (auto dest: UnquoteChar_shorter)

declare unquoteLoop.simps [simp del]

text \<open>
  \<open>strconv.Unquote\<close> on a string that starts with a double quote, the only form
  \<open>quotedString\<close> hands to it (the single-quoted and back-quoted forms of the library
  function are not reached and are answered with \<open>ErrSyntax\<close> here).  A string with no
  backslash and no newline up to the first closing quote, and valid UTF-8 inside, is
  returned as it is; otherwise the escape sequences are processed one by one.  Anything
  after the closing quote is a syntax error.
\<close>

definition Unquote :: "string \<Rightarrow> error + string" where
  "Unquote inp =
     (if length inp < 2 then Inl ErrSyntax
      else if hd inp \<noteq> CHR 0x22 then Inl ErrSyntax
      else if CHR 0x22 \<notin> set (tl inp) then Inl ErrSyntax
      else
        (let inner = takeWhile (\<lambda>c. c \<noteq> CHR 0x22) (tl inp);
             rem = drop (Suc (length inner)) (tl inp) in
         if CHR 0x5C \<notin> set inner \<and> CHR 0x0A \<notin> set inner \<and> ValidString inner then
           (if rem = [] then Inr inner else Inl ErrSyntax)
         else
           (case unquoteLoop (tl inp) of
              Inl e \<Rightarrow> Inl e
            | Inr (buf, rest) \<Rightarrow>
                if rest \<noteq> [] \<and> hd rest = CHR 0x22 then
                  (if tl rest = [] then Inr buf else Inl ErrSyntax)
                else Inl ErrSyntax)))"

subsection \<open>Scanning a string operand\<close>

text \<open>
  \<open>quotedString\<close>: a back-quoted string is taken as it stands up to the closing back
  quote; a double-quoted string is read up to the first quote that no backslash
  protects and handed, quotes included, to \<open>strconv.Unquote\<close>.
\<close>

function readBackQuoted :: "string \<Rightarrow> error + (string \<times> string)" where
  "readBackQuoted s =
     (case getRune s of
        None \<Rightarrow> Inl ErrUnexpectedEOF
      | Some (r, s') \<Rightarrow>
          if r = 96 then Inr ([], s')
          else (case readBackQuoted s' of
                  Inl e \<Rightarrow> Inl e
                | Inr (buf, rest) \<Rightarrow> Inr (AppendRune r @ buf, rest)))"
  by pat_completeness auto
termination
  by (relation "measure length") (auto dest: getRune_shorter)

declare readBackQuoted.simps [simp del]

function readDoubleQuoted :: "string \<Rightarrow> error + (string \<times> string)" where
  "readDoubleQuoted s =
     (case getRune s of
        None \<Rightarrow> Inl ErrUnexpectedEOF
      | Some (r, s1) \<Rightarrow>
          if r = 92 then
            (case getRune s1 of
               None \<Rightarrow> Inl ErrUnexpectedEOF
             | Some (r2, s2) \<Rightarrow>
                 (case readDoubleQuoted s2 of
                    Inl e \<Rightarrow> Inl e
                  | Inr (buf, rest) \<Rightarrow> Inr (AppendRune r @ AppendRune r2 @ buf, rest)))
          else if r = 34 then Inr (AppendRune r, s1)
          else (case readDoubleQuoted s1 of
                  Inl e \<Rightarrow> Inl e
                | Inr (buf, rest) \<Rightarrow> Inr (AppendRune r @ buf, rest)))"
  by pat_completeness auto
termination
  by (relation "measure length") (auto dest!: getRune_shorter)

declare readDoubleQuoted.simps [simp del]

definition quotedString :: "string \<Rightarrow> error + (string \<times> string)" where
  "quotedString s =
     (case getRune s of
        None \<Rightarrow> Inl EOF
      | Some (quote, s') \<Rightarrow>
          if quote = 96 then readBackQuoted s'
          else if quote = 34 then
            (case readDoubleQuoted s' of
               Inl e \<Rightarrow> Inl e
             | Inr (buf, rest) \<Rightarrow>
                 (case Unquote (CHR 0x22 # buf) of
                    Inl e \<Rightarrow> Inl e
                  | Inr result \<Rightarrow> Inr (result, rest)))
          else Inl (errorString ''expected quoted string''))"

text \<open>
  \<open>convertString\<close>, the conversion \<open>scanOne\<close> uses for an operand of type
  \<open>*string\<close>.  The verbs \<open>%s\<close> and \<open>%v\<close> read the next word, \<open>%q\<close> a quoted
  string.  The hexadecimal verbs \<open>%x\<close> and \<open>%X\<close> do not occur in the format of this
  program; the model has no \<open>hexString\<close> and answers them like an unknown verb.
\<close>

definition convertString :: "rune \<Rightarrow> string \<Rightarrow> error + (string \<times> string)" where
  "convertString verb s =
     (if verb \<noteq> 115 \<and> verb \<noteq> 118 \<and> verb \<noteq> 113 then
        Inl (errorString (''bad verb '' @ [CHR 0x27, CHR ''%''] @ AppendRune verb
                           @ [CHR 0x27] @ '' for string''))
      else
        (case SkipSpace s of
           Inl e \<Rightarrow> Inl e
         | Inr s1 \<Rightarrow>
             (case notEOF s1 of
                Inl e \<Rightarrow> Inl e
              | Inr _ \<Rightarrow> if verb = 113 then quotedString s1 else token s1)))"

subsection \<open>Matching the format: \<open>advance\<close> and \<open>doScanf\<close>\<close>

text \<open>
  The run of space characters at the head of the format: the number of newlines in it,
  whether a space follows the last newline, and the format after the run.
\<close>

function fmtSpaces :: "string \<Rightarrow> nat \<Rightarrow> bool \<Rightarrow> nat \<times> bool \<times> string" where
  "fmtSpaces fmt newlines trailingSpace =
     (if fmt \<noteq> [] \<and> isSpace (fst (DecodeRuneInString fmt)) then
        (case DecodeRuneInString fmt of
           (fmtc, w) \<Rightarrow>
             if fmtc = 10 then fmtSpaces (drop w fmt) (Suc newlines) False
             else fmtSpaces (drop w fmt) newlines True)
      else (newlines, trailingSpace, fmt))"
  by pat_completeness auto
termination
  by (relation "measure (\<lambda>(fmt, n, t). length fmt)")
     (auto simp: neq_Nil_conv dest: DecodeRuneInString_pos)

declare fmtSpaces.simps [simp del]

text \<open>Skip the spaces of the input that are not newlines.\<close>

function skipBlanks :: "string \<Rightarrow> string" where
  "skipBlanks inp =
     (case getRune inp of
        None \<Rightarrow> inp
      | Some (r, inp') \<Rightarrow> if isSpace r \<and> r \<noteq> 10 then skipBlanks inp' else inp)"
  by pat_completeness auto
termination
  by (relation "measure length") (auto dest: getRune_shorter)

declare skipBlanks.simps [simp del]

text \<open>
  A newline in the format matches zero or more spaces and then a newline or the end of
  the input.
\<close>

fun matchNewlines :: "nat \<Rightarrow> string \<Rightarrow> error + string" where
  "matchNewlines 0 inp = Inr inp"
| "matchNewlines (Suc j) inp =
     (case getRune (skipBlanks inp) of
        None \<Rightarrow> matchNewlines j (skipBlanks inp)
      | Some (r, inp') \<Rightarrow>
          if r = 10 then matchNewlines j inp'
          else Inl (errorString ''newline in format does not match input''))"

text \<open>
  Other spaces in the format match one or more spaces of the input, or its end; where
  they stand alone (no newline before them in the run) the input must have a space
  there and no newline.
\<close>

definition matchTrailingSpace :: "nat \<Rightarrow> string \<Rightarrow> error + string" where
  "matchTrailingSpace newlines inp =
     (case getRune inp of
        None \<Rightarrow> Inr inp
      | Some (inputc, _) \<Rightarrow>
          if newlines = 0 \<and> \<not> isSpace inputc then
            Inl (errorString ''expected space in input to match format'')
          else if newlines = 0 \<and> inputc = 10 then
            Inl (errorString ''newline in input does not match format'')
          else Inr (skipBlanks inp))"

lemma DecodeRuneInString_pos':
  "(r, w) = DecodeRuneInString fmt \<Longrightarrow> fmt \<noteq> [] \<Longrightarrow> 0 < w"
  by (cases fmt) (auto dest: DecodeRuneInString_pos)

lemma fmtSpaces_length:
  "fmtSpaces fmt n t = (n', t', fmt') \<Longrightarrow> length fmt' \<le> length fmt"
proof (induction fmt n t arbitrary: n' t' fmt' rule: fmtSpaces.induct)
  case (1 fmt newlines trailingSpace)
  obtain fmtc w where d: "DecodeRuneInString fmt = (fmtc, w)"
    by (cases "DecodeRuneInString fmt")
  show ?case
  proof (cases "fmt \<noteq> [] \<and> isSpace (fst (DecodeRuneInString fmt))")
    case True
    with "1.prems" d have
      "(if fmtc = 10 then fmtSpaces (drop w fmt) (Suc newlines) False
        else fmtSpaces (drop w fmt) newlines True) = (n', t', fmt')"
      by (subst (asm) fmtSpaces.simps) simp
    then have "length fmt' \<le> length (drop w fmt)"
      using "1.IH"(1) [OF True d [symmetric]] "1.IH"(2) [OF True d [symmetric]]
      by (auto split: if_splits)
    then show ?thesis by simp
  next
    case False
    with "1.prems" have "fmt' = fmt" by (subst (asm) fmtSpaces.simps) auto
    then show ?thesis by simp
  qed
qed

lemma fmtSpaces_shorter:
  assumes "fmt \<noteq> []" and "(fmtc, w) = DecodeRuneInString fmt" and "isSpace fmtc"
    and "(n', y) = fmtSpaces fmt n t" and "(t', fmt') = y"
  shows "length fmt' < length fmt"
proof -
  from assms(2,1) have w: "0 < w" by (rule DecodeRuneInString_pos')
  from assms(2,3) have sp: "isSpace (fst (DecodeRuneInString fmt))" by (metis fst_conv)
  from assms(4,5) have r: "fmtSpaces fmt n t = (n', t', fmt')" by simp
  with assms(1) sp assms(2) [symmetric] have
    "(if fmtc = 10 then fmtSpaces (drop w fmt) (Suc n) False
      else fmtSpaces (drop w fmt) n True) = (n', t', fmt')"
    by (subst (asm) fmtSpaces.simps) simp
  then have "length fmt' \<le> length (drop w fmt)"
    by (auto split: if_splits dest: fmtSpaces_length)
  with w assms(1) show ?thesis by (cases fmt) auto
qed

text \<open>
  \<open>advance\<close> matches the head of the format against the input, up to the next verb.
  \<open>fmt\<close> is the format that is left and \<open>i\<close> the number of its bytes already
  consumed in this call.  The result is the library's return value (the bytes consumed,
  or \<open>-1\<close> where a literal does not match) and the input that is left.
\<close>

function advance :: "string \<Rightarrow> nat \<Rightarrow> string \<Rightarrow> error + (int \<times> string)" where
  "advance fmt i inp =
     (if fmt = [] then Inr (int i, inp)
      else
        (case DecodeRuneInString fmt of
           (fmtc, w) \<Rightarrow>
             if isSpace fmtc then
               (case fmtSpaces fmt 0 False of
                  (newlines, trailingSpace, fmt') \<Rightarrow>
                    (case matchNewlines newlines inp of
                       Inl e \<Rightarrow> Inl e
                     | Inr inp1 \<Rightarrow>
                         (case (if trailingSpace then matchTrailingSpace newlines inp1
                                else Inr inp1) of
                            Inl e \<Rightarrow> Inl e
                          | Inr inp2 \<Rightarrow>
                              advance fmt' (i + (length fmt - length fmt')) inp2)))
             else if fmtc = 37 \<and> w = length fmt then
               Inl (errorString ''missing verb: % at end of format string'')
             else if fmtc = 37 \<and> fst (DecodeRuneInString (drop w fmt)) \<noteq> 37 then
               Inr (int i, inp)
             else
               (let skip = (if fmtc = 37 then w else 0) in
                case mustReadRune inp of
                  Inl e \<Rightarrow> Inl e
                | Inr (inputc, inp') \<Rightarrow>
                    if fmtc \<noteq> inputc then Inr (- 1, inp)
                    else advance (drop (skip + w) fmt) (i + skip + w) inp')))"
  by pat_completeness auto
termination
  by (relation "measure (\<lambda>(fmt, i, inp). length fmt)")
     (auto dest: fmtSpaces_shorter DecodeRuneInString_pos')

declare advance.simps [simp del]

text \<open>
  \<open>scanPercent\<close>, for a \<open>%%\<close> that \<open>doScanf\<close> meets as a verb.
\<close>

definition scanPercent :: "string \<Rightarrow> error + string" where
  "scanPercent s =
     (case SkipSpace s of
        Inl e \<Rightarrow> Inl e
      | Inr s1 \<Rightarrow>
          (case getRune s1 of
             None \<Rightarrow> Inl EOF
           | Some (r, s2) \<Rightarrow>
               if r = 37 then Inr s2 else Inl (errorString ''missing literal %'')))"

text \<open>
  \<open>doScanf\<close>: one operand per verb of the format.  The operands are the pointers the
  caller passes, all of type \<open>*string\<close> in this program: \<open>a\<close> holds the current
  values of the variables they point to, and storing through operand \<open>numProcessed\<close>
  is a list update.  The result is the number of operands stored, the variables, and
  the error (\<open>None\<close> for \<open>nil\<close>).  No verb of this program's format has a width, and
  \<open>parsenum\<close> is left out: the verb is the rune after the \<open>%\<close>.
\<close>

definition tooManyOperands :: "string list \<Rightarrow> nat \<Rightarrow> nat \<times> string list \<times> error option" where
  "tooManyOperands a numProcessed =
     (if numProcessed < length a then (numProcessed, a, Some (errorString ''too many operands''))
      else (numProcessed, a, None))"

function doScanf :: "string \<Rightarrow> string list \<Rightarrow> nat \<Rightarrow> string
                      \<Rightarrow> nat \<times> string list \<times> error option" where
  "doScanf fmt a numProcessed inp =
     (if fmt = [] then tooManyOperands a numProcessed
      else
        (case advance fmt 0 inp of
           Inl e \<Rightarrow> (numProcessed, a, Some e)
         | Inr (w, inp1) \<Rightarrow>
             if w > 0 then doScanf (drop (nat w) fmt) a numProcessed inp1
             else if hd fmt \<noteq> CHR ''%'' then
               (if w < 0 then
                  (numProcessed, a, Some (errorString ''input does not match format''))
                else tooManyOperands a numProcessed)
             else
               (case DecodeRuneInString (tl fmt) of
                  (c, cw) \<Rightarrow>
                    (case (if c \<noteq> 99 then SkipSpace inp1 else Inr inp1) of
                       Inl e \<Rightarrow> (numProcessed, a, Some e)
                     | Inr inp2 \<Rightarrow>
                         if c = 37 then
                           (case scanPercent inp2 of
                              Inl e \<Rightarrow> (numProcessed, a, Some e)
                            | Inr inp3 \<Rightarrow> doScanf (drop cw (tl fmt)) a numProcessed inp3)
                         else if numProcessed \<ge> length a then
                           (numProcessed, a,
                            Some (errorString (''too few operands for format '' @
                                   [CHR 0x27, CHR ''%''] @ tl fmt @ [CHR 0x27])))
                         else
                           (case convertString c inp2 of
                              Inl e \<Rightarrow> (numProcessed, a, Some e)
                            | Inr (v, inp3) \<Rightarrow>
                                doScanf (drop cw (tl fmt)) (a[numProcessed := v])
                                  (Suc numProcessed) inp3)))))"
  by pat_completeness auto
termination
  by (relation "measure (\<lambda>(fmt, a, n, inp). length fmt)")
     (auto simp: neq_Nil_conv dest: DecodeRuneInString_pos)

declare doScanf.simps [simp del]

text \<open>
  \<open>fmt.Sscanf(str, format, a...)\<close>: the scan starts at the head of \<open>str\<close>; what is
  left of \<open>str\<close> when the format is used up is not looked at.
\<close>

definition Sscanf :: "string \<Rightarrow> string \<Rightarrow> string list \<Rightarrow> nat \<times> string list \<times> error option" where
  "Sscanf str format a = doScanf format a 0 str"

section \<open>\<open>time.ParseDuration\<close>\<close>

text \<open>
  A \<open>time.Duration\<close> is an \<open>int64\<close> count of nanoseconds, a \<^typ>\<open>64 word\<close> here.
  Inside \<open>ParseDuration\<close> the library computes with \<open>uint64\<close> values; they are
  integers here, every bound the library checks is checked, and the one addition that
  can wrap is taken modulo \<open>2^64\<close>.
\<close>

type_synonym Duration = "64 word"

definition isDigit :: "char \<Rightarrow> bool" where
  "isDigit c = (48 \<le> byte c \<and> byte c \<le> 57)"

text \<open>\<open>leadingInt\<close>: the leading \<open>[0-9]*\<close> of the string; \<open>None\<close> is \<open>errLeadingInt\<close>.\<close>

fun leadingInt :: "string \<Rightarrow> int \<Rightarrow> (int \<times> string) option" where
  "leadingInt [] x = Some (x, [])"
| "leadingInt (c # cs) x =
     (if \<not> isDigit c then Some (x, c # cs)
      else if x > 2 ^ 63 div 10 then None
      else
        (let x' = x * 10 + byte c - 48 in
         if x' > 2 ^ 63 then None else leadingInt cs x'))"

text \<open>
  The fraction of a duration is computed in \<open>float64\<close>.  A positive \<open>float64\<close> is
  modelled by the rational number it stands for, as numerator and denominator, and
  \<open>fl\<close> rounds a positive rational to the nearest number with a mantissa of 53 bits,
  ties to the even mantissa, as IEEE 754 arithmetic does for every single operation.
  The exponent is not bounded in the model: the library only uses the result after
  truncating it to an integer, and a value small enough to leave the exponent range of
  \<open>float64\<close> truncates to \<open>0\<close> either way.
\<close>

type_synonym float64 = "int \<times> int"

function bitlen :: "int \<Rightarrow> nat" where
  "bitlen n = (if n \<le> 0 then 0 else Suc (bitlen (n div 2)))"
  by pat_completeness auto
termination
  by (relation "measure nat") auto

declare bitlen.simps [simp del]

definition scaleBy :: "int \<Rightarrow> int \<Rightarrow> int \<Rightarrow> int \<times> int" where
  "scaleBy p q e = (if e \<ge> 0 then (p, q * 2 ^ nat e) else (p * 2 ^ nat (- e), q))"

definition fl :: "int \<Rightarrow> int \<Rightarrow> float64" where
  "fl p q =
     (if p \<le> 0 \<or> q \<le> 0 then (0, 1)
      else
        (let e0 = int (bitlen p) - int (bitlen q) - 53;
             e = (case scaleBy p q e0 of (P, Q) \<Rightarrow> if P div Q \<ge> 2 ^ 53 then e0 + 1 else e0)
         in case scaleBy p q e of
              (P, Q) \<Rightarrow>
                (let m = P div Q; r = P mod Q;
                     m' = (if 2 * r > Q \<or> (2 * r = Q \<and> odd m) then m + 1 else m)
                 in if e \<ge> 0 then (m' * 2 ^ nat e, 1) else (m', 2 ^ nat (- e)))))"

definition float64_of :: "int \<Rightarrow> float64" where
  "float64_of n = fl n 1"

definition fmul :: "float64 \<Rightarrow> float64 \<Rightarrow> float64" where
  "fmul x y = fl (fst x * fst y) (snd x * snd y)"

definition fdiv :: "float64 \<Rightarrow> float64 \<Rightarrow> float64" where
  "fdiv x y = fl (fst x * snd y) (snd x * fst y)"

definition uint64_of :: "float64 \<Rightarrow> int" where
  "uint64_of x = fst x div snd x"

text \<open>
  \<open>leadingFraction\<close>: the leading \<open>[0-9]*\<close> as a number \<open>x\<close> and the power of ten
  \<open>scale\<close> to divide it by; digits that would overflow \<open>x\<close> are dropped.
\<close>

fun leadingFraction :: "string \<Rightarrow> int \<Rightarrow> float64 \<Rightarrow> bool \<Rightarrow> int \<times> float64 \<times> string" where
  "leadingFraction [] x scale overflow = (x, scale, [])"
| "leadingFraction (c # cs) x scale overflow =
     (if \<not> isDigit c then (x, scale, c # cs)
      else if overflow then leadingFraction cs x scale True
      else if x > (2 ^ 63 - 1) div 10 then leadingFraction cs x scale True
      else
        (let y = x * 10 + byte c - 48 in
         if y > 2 ^ 63 then leadingFraction cs x scale True
         else leadingFraction cs y (fmul scale (float64_of 10)) False))"

definition Nanosecond :: int where "Nanosecond = 1"
definition Microsecond :: int where "Microsecond = 1000 * Nanosecond"
definition Millisecond :: int where "Millisecond = 1000 * Microsecond"
definition Second :: int where "Second = 1000 * Millisecond"
definition Minute :: int where "Minute = 60 * Second"
definition Hour :: int where "Hour = 60 * Minute"

definition unitMap :: "string \<Rightarrow> int option" where
  "unitMap u =
     (if u = ''ns'' then Some Nanosecond
      else if u = ''us'' then Some Microsecond
      else if u = [CHR 0xC2, CHR 0xB5, CHR ''s''] then Some Microsecond
      else if u = [CHR 0xCE, CHR 0xBC, CHR ''s''] then Some Microsecond
      else if u = ''ms'' then Some Millisecond
      else if u = ''s'' then Some Second
      else if u = ''m'' then Some Minute
      else if u = ''h'' then Some Hour
      else None)"

definition invalidDuration :: error where
  "invalidDuration = errorString ''time: invalid duration''"

definition unitChar :: "char \<Rightarrow> bool" where
  "unitChar c = (\<not> (c = CHR ''.'' \<or> isDigit c))"

lemma leadingInt_length: "leadingInt s x = Some (v, r) \<Longrightarrow> length r \<le> length s"
proof (induction s arbitrary: x)
  case Nil
  then show ?case by simp
next
  case (Cons c cs)
  show ?case
  proof (cases "isDigit c")
    case False
    with Cons.prems show ?thesis by simp
  next
    case True
    with Cons.prems have "leadingInt cs (x * 10 + byte c - 48) = Some (v, r)"
      by (simp add: Let_def split: if_splits)
    then have "length r \<le> length cs" by (rule Cons.IH)
    then show ?thesis by simp
  qed
qed

lemma leadingFraction_length:
  "leadingFraction s x sc ov = (f, sc', r) \<Longrightarrow> length r \<le> length s"
proof (induction s arbitrary: x sc ov)
  case Nil
  then show ?case by simp
next
  case (Cons c cs)
  show ?case
  proof (cases "isDigit c")
    case False
    with Cons.prems show ?thesis by simp
  next
    case True
    with Cons.prems obtain x' sc'' ov' where "leadingFraction cs x' sc'' ov' = (f, sc', r)"
      by (auto simp: Let_def split: if_splits)
    then have "length r \<le> length cs" by (rule Cons.IH)
    then show ?thesis by simp
  qed
qed

lemma parseGroups_shorter:
  assumes li: "leadingInt s 0 = Some (v, s1)"
    and fr: "(f, scale, s2) =
             (if s1 \<noteq> [] \<and> hd s1 = CHR ''.''
              then leadingFraction (tl s1) 0 (float64_of 1) False
              else (0, float64_of 1, s1))"
    and u: "takeWhile unitChar s2 \<noteq> []"
  shows "length (dropWhile unitChar s2) < length s"
proof -
  from li have l1: "length s1 \<le> length s" by (rule leadingInt_length)
  have l2: "length s2 \<le> length s1"
  proof (cases "s1 \<noteq> [] \<and> hd s1 = CHR ''.''")
    case True
    with fr have "leadingFraction (tl s1) 0 (float64_of 1) False = (f, scale, s2)" by simp
    then have "length s2 \<le> length (tl s1)" by (rule leadingFraction_length)
    then show ?thesis by simp
  next
    case False
    with fr show ?thesis by auto
  qed
  have "length (takeWhile unitChar s2) + length (dropWhile unitChar s2) = length s2"
    by (metis length_append takeWhile_dropWhile_id)
  with u have "length (dropWhile unitChar s2) < length s2"
    by (cases "takeWhile unitChar s2") auto
  with l1 l2 show ?thesis by simp
qed

text \<open>
  The loop of \<open>ParseDuration\<close> over the \<open>number unit\<close> groups; \<open>d\<close> is the sum so
  far.  The error messages of the library also quote the input, which is left out.
\<close>

function parseGroups :: "string \<Rightarrow> int \<Rightarrow> error + int" where
  "parseGroups s d =
     (if s = [] then Inr d
      else if \<not> (hd s = CHR ''.'' \<or> isDigit (hd s)) then Inl invalidDuration
      else
        (case leadingInt s 0 of
           None \<Rightarrow> Inl invalidDuration
         | Some (v, s1) \<Rightarrow>
             (case (if s1 \<noteq> [] \<and> hd s1 = CHR ''.''
                    then leadingFraction (tl s1) 0 (float64_of 1) False
                    else (0, float64_of 1, s1)) of
                (f, scale, s2) \<Rightarrow>
                  (let pre = (length s \<noteq> length s1);
                       post = (s1 \<noteq> [] \<and> hd s1 = CHR ''.'' \<and> length (tl s1) \<noteq> length s2);
                       u = takeWhile unitChar s2;
                       s3 = dropWhile unitChar s2
                   in if \<not> pre \<and> \<not> post then Inl invalidDuration
                      else if u = [] then Inl (errorString ''time: missing unit in duration'')
                      else
                        (case unitMap u of
                           None \<Rightarrow> Inl (errorString ''time: unknown unit in duration'')
                         | Some unit \<Rightarrow>
                             if v > 2 ^ 63 div unit then Inl invalidDuration
                             else
                               (let v1 = v * unit;
                                    v2 = (if f > 0
                                          then v1 + uint64_of (fmul (float64_of f)
                                                      (fdiv (float64_of unit) scale))
                                          else v1)
                                in if f > 0 \<and> v2 > 2 ^ 63 then Inl invalidDuration
                                   else
                                     (let d' = (d + v2) mod 2 ^ 64 in
                                      if d' > 2 ^ 63 then Inl invalidDuration
                                      else parseGroups s3 d')))))))"
  by pat_completeness auto
termination
  apply (relation "measure (\<lambda>(s, d). length s)")
   apply simp
  apply clarsimp
  apply (erule parseGroups_shorter)
   apply assumption
  apply assumption
  done

declare parseGroups.simps [simp del]

definition ParseDuration :: "string \<Rightarrow> error + Duration" where
  "ParseDuration orig =
     (let neg = (orig \<noteq> [] \<and> hd orig = CHR ''-'');
          s = (if orig \<noteq> [] \<and> (hd orig = CHR ''-'' \<or> hd orig = CHR ''+'') then tl orig
               else orig)
      in if s = ''0'' then Inr 0
         else if s = [] then Inl invalidDuration
         else
           (case parseGroups s 0 of
              Inl e \<Rightarrow> Inl e
            | Inr d \<Rightarrow>
                if neg then Inr (- word_of_int d)
                else if d > 2 ^ 63 - 1 then Inl invalidDuration
                else Inr (word_of_int d)))"

text \<open>
  \<open>Duration.Milliseconds\<close> is \<open>int64(d) / 1e6\<close>; Go's integer division truncates
  towards zero, which is \<open>sdiv\<close> on the signed value.
\<close>

definition Milliseconds :: "Duration \<Rightarrow> 64 word" where
  "Milliseconds d = word_of_int (sint d sdiv 1000000)"

section \<open>\<open>strconv.ParseInt\<close>\<close>

text \<open>
  \<open>strconv.ParseUint\<close> for an explicit base between 2 and 36 (the program passes 10; the
  prefix and underscore rules of base 0 are not part of the model, and base 0 is answered
  like any other invalid base).  The result is the pair the library returns: the value,
  which on a range error is the largest value of the size, and the error.
\<close>

definition maxUint64 :: int where
  "maxUint64 = 2 ^ 64 - 1"

definition lower :: "int \<Rightarrow> int" where
  "lower c = c OR 32"

definition digitVal :: "char \<Rightarrow> int option" where
  "digitVal c =
     (if 48 \<le> byte c \<and> byte c \<le> 57 then Some (byte c - 48)
      else if 97 \<le> lower (byte c) \<and> lower (byte c) \<le> 122 then Some (lower (byte c) - 97 + 10)
      else None)"

fun parseUintLoop :: "string \<Rightarrow> int \<Rightarrow> int \<Rightarrow> int \<Rightarrow> int \<Rightarrow> int \<times> error option" where
  "parseUintLoop [] base cutoff maxVal n = (n, None)"
| "parseUintLoop (c # cs) base cutoff maxVal n =
     (case digitVal c of
        None \<Rightarrow> (0, Some ErrSyntax)
      | Some d \<Rightarrow>
          if d \<ge> base then (0, Some ErrSyntax)
          else if n \<ge> cutoff then (maxVal, Some ErrRange)
          else
            (let n0 = n * base;
                 n1 = (n0 + d) mod 2 ^ 64
             in if n1 < n0 \<or> n1 > maxVal then (maxVal, Some ErrRange)
                else parseUintLoop cs base cutoff maxVal n1))"

definition ParseUint :: "string \<Rightarrow> int \<Rightarrow> nat \<Rightarrow> int \<times> error option" where
  "ParseUint s base bitSize =
     (if s = [] then (0, Some ErrSyntax)
      else if \<not> (2 \<le> base \<and> base \<le> 36) then (0, Some (errorString ''invalid base''))
      else if bitSize > 64 then (0, Some (errorString ''invalid bit size''))
      else
        (let bits = (if bitSize = 0 then 64 else bitSize) in
         parseUintLoop s base (maxUint64 div base + 1) (2 ^ bits - 1) 0))"

text \<open>
  \<open>strconv.ParseInt\<close>: an optional sign, then \<open>ParseUint\<close>, then the range of the signed
  type.  The value is returned as the \<open>int64\<close> it is converted to.
\<close>

definition ParseInt :: "string \<Rightarrow> int \<Rightarrow> nat \<Rightarrow> error + 64 word" where
  "ParseInt s0 base bitSize =
     (if s0 = [] then Inl ErrSyntax
      else
        (let neg = (hd s0 = CHR ''-'');
             s = (if hd s0 = CHR ''+'' \<or> hd s0 = CHR ''-'' then tl s0 else s0)
         in case ParseUint s base bitSize of
              (un, err) \<Rightarrow>
                if err \<noteq> None \<and> err \<noteq> Some ErrRange then Inl (the err)
                else
                  (let bits = (if bitSize = 0 then 64 else bitSize);
                       cutoff = 2 ^ (bits - 1)
                   in if \<not> neg \<and> un \<ge> cutoff then Inl ErrRange
                      else if neg \<and> un > cutoff then Inl ErrRange
                      else Inr (if neg then - word_of_int un else word_of_int un))))"

section \<open>The regular expression of the pod name prefix\<close>

text \<open>
  The program matches the pod name against \<open>^(.*)-.*-.*$\<close>.  A regular expression of
  this shape is a list of items between the two anchors: a literal byte, \<open>.*\<close>, or
  \<open>(.*)\<close> as a capturing group.  \<open>backtrack\<close> is the search whose first match
  package \<open>regexp\<close> returns: a \<open>.*\<close> is greedy, it first takes as many characters as
  it can (\<open>.\<close> matches every character but the newline) and gives them back one by one
  until the rest of the expression matches.  The result is the list of the captured
  groups.  The library steps through the text rune by rune; the literals here are ASCII,
  which never occurs inside the encoding of another rune, so stepping byte by byte finds
  the same match.
\<close>

datatype re_item = Lit char | AnyStar | CapAnyStar

fun firstSome :: "'a option list \<Rightarrow> 'a option" where
  "firstSome [] = None"
| "firstSome (None # xs) = firstSome xs"
| "firstSome (Some v # xs) = Some v"

definition greedy :: "string \<Rightarrow> nat list" where
  "greedy s = rev [0..<Suc (length (takeWhile (\<lambda>c. c \<noteq> CHR 0x0A) s))]"

fun backtrack :: "re_item list \<Rightarrow> string \<Rightarrow> string list option" where
  "backtrack [] s = (if s = [] then Some [] else None)"
| "backtrack (Lit c # items) s =
     (case s of [] \<Rightarrow> None | x # xs \<Rightarrow> if x = c then backtrack items xs else None)"
| "backtrack (AnyStar # items) s =
     firstSome (map (\<lambda>n. backtrack items (drop n s)) (greedy s))"
| "backtrack (CapAnyStar # items) s =
     firstSome (map (\<lambda>n. map_option (\<lambda>caps. take n s # caps) (backtrack items (drop n s)))
                    (greedy s))"

definition FindStringSubmatch :: "re_item list \<Rightarrow> string \<Rightarrow> string list" where
  "FindStringSubmatch re s = (case backtrack re s of None \<Rightarrow> [] | Some caps \<Rightarrow> s # caps)"

definition podPrefixRe :: "re_item list" where
  "podPrefixRe = [CapAnyStar, Lit CHR ''-'', AnyStar, Lit CHR ''-'', AnyStar]"

section \<open>Events, attributes and instruments\<close>

text \<open>The fields of \<open>v1.Event\<close> that the handler reads.\<close>

record EventSource =
  Component :: string
  Host :: string

record ObjectReference =
  Kind :: string
  Name :: string

text \<open>
  A \<open>metav1.Time\<close>, as the seconds since the Unix epoch (an \<open>int64\<close>) and the
  nanoseconds within the second.
\<close>

record Time =
  unixSec :: "64 word"
  nsec :: int

definition UnixMilli :: "Time \<Rightarrow> 64 word" where
  "UnixMilli t = unixSec t * 1000 + word_of_int (nsec t sdiv 1000000)"

record Event =
  Source :: EventSource
  InvolvedObject :: ObjectReference
  Reason :: string
  Message :: string
  Namespace :: string
  LastTimestamp :: Time

text \<open>
  The informer hands the handler an \<open>interface{}\<close>; the handler goes on only if it is
  a \<open>*v1.Event\<close>.
\<close>

datatype obj = EventPtr Event | OtherObject

datatype attr_value = Int64Value "64 word" | StringValue string

type_synonym KeyValue = "string \<times> attr_value"

text \<open>
  An instrument of the meter: its name, description, unit and explicit bucket boundaries
  (none for a gauge), and the measurements recorded so far, each with its attributes.
\<close>

record Instrument =
  instName :: string
  instDescription :: string
  instUnit :: string
  instBoundaries :: "int list"
  instRecorded :: "(64 word \<times> KeyValue list) list"

definition Record :: "Instrument \<Rightarrow> 64 word \<Rightarrow> KeyValue list \<Rightarrow> Instrument" where
  "Record inst v attrs = inst\<lparr>instRecorded := instRecorded inst @ [(v, attrs)]\<rparr>"

text \<open>
  The three package-level instruments form the state the handler works on; \<open>main\<close>
  creates them before the informer starts.
\<close>

record Instruments =
  durationPullHistogram :: Instrument
  durationPullWaitOnlyHistogram :: Instrument
  imageSizeGauge :: Instrument

definition main_instruments :: Instruments where
  "main_instruments =
     \<lparr> durationPullHistogram =
         \<lparr> instName = ''k8s.image.pull.duration'',
           instDescription = ''The duration of image pull.'',
           instUnit = ''ms'',
           instBoundaries = [15000, 30000, 45000, 60000, 120000, 180000, 240000, 300000],
           instRecorded = [] \<rparr>,
       durationPullWaitOnlyHistogram =
         \<lparr> instName = ''k8s.image.pull_wait_only.duration'',
           instDescription = ''The duration of image pull including waiting time.'',
           instUnit = ''ms'',
           instBoundaries = [15000, 30000, 45000, 60000, 120000, 180000, 240000, 300000],
           instRecorded = [] \<rparr>,
       imageSizeGauge =
         \<lparr> instName = ''k8s.image.size'',
           instDescription = ''The size of the image in bytes.'',
           instUnit = ''bytes'',
           instBoundaries = [],
           instRecorded = [] \<rparr> \<rparr>"

section \<open>The event handler\<close>

definition pullFormat :: string where
  "pullFormat =
     ''Successfully pulled image %q in %s (%s including waiting). Image size: %s bytes.''"

text \<open>The first two tests of \<open>handleAddFunc\<close>: the event is dropped unless it passes both.\<close>

definition wrongKind :: "Event \<Rightarrow> bool" where
  "wrongKind event =
     (Component (Source event) \<noteq> ''kubelet'' \<or> Kind (InvolvedObject event) \<noteq> ''Pod''
      \<or> Reason event \<noteq> ''Pulled'')"

definition alreadyPresent :: "string \<Rightarrow> bool" where
  "alreadyPresent msg = (length msg \<ge> 15 \<and> take 15 msg = ''Container image'')"

text \<open>The attributes of a measurement, with the prefix of the pod name where it has one.\<close>

definition commonAttributes :: "Event \<Rightarrow> string \<Rightarrow> 64 word \<Rightarrow> KeyValue list" where
  "commonAttributes event imageName imageSizeInt =
     (let attrs =
        [(''observed.timestamp'', Int64Value (UnixMilli (LastTimestamp event))),
         (''exported.namespace'', StringValue (Namespace event)),
         (''exported.pod.name'', StringValue (Name (InvolvedObject event))),
         (''exported.container.name'', StringValue (Name (InvolvedObject event))),
         (''exported.pod.image'', StringValue imageName),
         (''exported.pod.image.size'', Int64Value imageSizeInt),
         (''exported.host'', StringValue (Host (Source event)))];
          podName = Name (InvolvedObject event);
          matches = FindStringSubmatch podPrefixRe podName
      in if length matches > 1
         then attrs @ [(''exported.pod.prefix'', StringValue (matches ! 1))]
         else attrs)"

text \<open>
  The three \<open>Record\<close> calls at the end of the handler.
\<close>

definition recordAll :: "Instruments \<Rightarrow> 64 word \<Rightarrow> Duration \<Rightarrow> Duration \<Rightarrow> KeyValue list
                          \<Rightarrow> Instruments" where
  "recordAll m imageSizeInt durationPull durationWithWait attrs =
     (let m1 = m\<lparr>imageSizeGauge := Record (imageSizeGauge m) imageSizeInt attrs\<rparr>;
          m2 = m1\<lparr>durationPullHistogram :=
                    Record (durationPullHistogram m1) (Milliseconds durationPull) attrs\<rparr>
      in m2\<lparr>durationPullWaitOnlyHistogram :=
               Record (durationPullWaitOnlyHistogram m2)
                 (Milliseconds (durationWithWait - durationPull)) attrs\<rparr>)"

text \<open>
  The parsing part of the handler: \<open>Sscanf\<close> into the four string variables, then the
  three conversions, in the order of the source.  An error says which step failed, as the
  log line of the source does: the scan (with the count and the error \<open>Sscanf\<close>
  returned), or the conversion of one of the fields.
\<close>

datatype parse_error =
    ScanFailed nat "error option"
  | DurationPullFailed error
  | DurationWaitFailed error
  | ImageSizeFailed error

type_synonym pull_record = "string \<times> Duration \<times> Duration \<times> 64 word"

definition parseMessage :: "string \<Rightarrow> parse_error + pull_record" where
  "parseMessage msg =
     (case Sscanf msg pullFormat [[], [], [], []] of
        (n, vars, err) \<Rightarrow>
          if err = None \<and> n = 4 then
            (let imageName = vars ! 0; durationPullStr = vars ! 1;
                 durationWaitStr = vars ! 2; imageSize = vars ! 3
             in case ParseDuration durationPullStr of
                  Inl e \<Rightarrow> Inl (DurationPullFailed e)
                | Inr durationPull \<Rightarrow>
                    (case ParseDuration durationWaitStr of
                       Inl e \<Rightarrow> Inl (DurationWaitFailed e)
                     | Inr durationWithWait \<Rightarrow>
                         (case ParseInt imageSize 10 64 of
                            Inl e \<Rightarrow> Inl (ImageSizeFailed e)
                          | Inr imageSizeInt \<Rightarrow>
                              Inr (imageName, durationPull, durationWithWait, imageSizeInt))))
          else Inl (ScanFailed n err))"

text \<open>
  The lines the handler writes to the log, each as the message of the \<open>log.Println\<close>
  call and its operands (the text the logger formats from them is not modelled).  The
  last line of a call that records carries the pull duration, the wait-only duration and
  the size.
\<close>

datatype log_line =
    SkippingEventMessage string
  | PodEventAdded string
  | FailedDurationPull error
  | FailedDurationWait error
  | FailedImageSize error
  | RecordedMetrics Duration Duration "64 word"
  | FailedEventMessage "error option"

text \<open>The log line of the source for each way the parsing part can fail.\<close>

fun failureLine :: "parse_error \<Rightarrow> log_line" where
  "failureLine (ScanFailed n err) = FailedEventMessage err"
| "failureLine (DurationPullFailed e) = FailedDurationPull e"
| "failureLine (DurationWaitFailed e) = FailedDurationWait e"
| "failureLine (ImageSizeFailed e) = FailedImageSize e"

text \<open>
  What the handler does with an event that passed the two tests: parse the message and,
  if that succeeds, build the attributes, record the three measurements and log them; if
  it fails, log the failure and return.  The result is the lines logged and the
  instruments after the call.
\<close>

definition processPulledLogged :: "Event \<Rightarrow> Instruments \<Rightarrow> log_line list \<times> Instruments" where
  "processPulledLogged event m =
     (case parseMessage (Message event) of
        Inl e \<Rightarrow> ([failureLine e], m)
      | Inr (imageName, durationPull, durationWithWait, imageSizeInt) \<Rightarrow>
          ([RecordedMetrics durationPull (durationWithWait - durationPull) imageSizeInt],
           recordAll m imageSizeInt durationPull durationWithWait
             (commonAttributes event imageName imageSizeInt)))"

text \<open>
  \<open>handleAddFunc\<close> with both of its effects: the lines it writes to the log, in
  order, and the instruments after the call.  Every \<open>return\<close> of the source that comes
  before the \<open>Record\<close> calls leaves the instruments as they were.
\<close>

definition handleAddFuncLogged :: "obj \<Rightarrow> Instruments \<Rightarrow> log_line list \<times> Instruments" where
  "handleAddFuncLogged ob m =
     (case ob of
        OtherObject \<Rightarrow> ([], m)
      | EventPtr event \<Rightarrow>
          if wrongKind event then ([], m)
          else if alreadyPresent (Message event) then
            ([SkippingEventMessage (Message event)], m)
          else
            (case processPulledLogged event m of
               (lines, m') \<Rightarrow> (PodEventAdded (Message event) # lines, m')))"

text \<open>The effect on the instruments alone.\<close>

definition processPulled :: "Event \<Rightarrow> Instruments \<Rightarrow> Instruments" where
  "processPulled event m = snd (processPulledLogged event m)"

definition handleAddFunc :: "obj \<Rightarrow> Instruments \<Rightarrow> Instruments" where
  "handleAddFunc ob m = snd (handleAddFuncLogged ob m)"

section \<open>Notions used in the properties\<close>

text \<open>
  An event is accepted if it gets past the two tests at the head of \<open>handleAddFunc\<close>.
\<close>

definition accept :: "Event \<Rightarrow> bool" where
  "accept event = (\<not> wrongKind event \<and> \<not> alreadyPresent (Message event))"

text \<open>
  The measurements an event adds: what \<open>handleAddFunc\<close> appended to the three
  instruments, as the lists of the new entries of the gauge, of the pull histogram and of
  the wait-only histogram.
\<close>

definition added :: "Instrument \<Rightarrow> Instrument \<Rightarrow> (64 word \<times> KeyValue list) list" where
  "added before after = drop (length (instRecorded before)) (instRecorded after)"

text \<open>An event of the kubelet about a pod, with the given message and pod name.\<close>

definition pulledEvent :: "string \<Rightarrow> string \<Rightarrow> Event" where
  "pulledEvent msg podName =
     \<lparr> Source = \<lparr> Component = ''kubelet'', Host = ''node-1'' \<rparr>,
       InvolvedObject = \<lparr> Kind = ''Pod'', Name = podName \<rparr>,
       Reason = ''Pulled'',
       Message = msg,
       Namespace = ''default'',
       LastTimestamp = \<lparr> unixSec = 1700000000, nsec = 123456789 \<rparr> \<rparr>"

text \<open>
  The message of the grammar of the specification, put together from its four variable
  parts: the image reference, the two duration tokens and the size token.
\<close>

definition pulledMessage :: "string \<Rightarrow> string \<Rightarrow> string \<Rightarrow> string \<Rightarrow> string" where
  "pulledMessage ref d1 d2 n =
     ''Successfully pulled image '' @ [CHR 0x22] @ ref @ [CHR 0x22] @ '' in '' @ d1 @ '' (''
       @ d2 @ '' including waiting). Image size: '' @ n @ '' bytes.''"

text \<open>
  The dash-separated segments of a pod name, in the words of the specification: the name
  is cut at every dash, and \<open>joinOn\<close> puts segments together again with a dash between
  them.
\<close>

fun splitOn :: "char \<Rightarrow> string \<Rightarrow> string list" where
  "splitOn c [] = [[]]"
| "splitOn c (x # xs) =
     (if x = c then [] # splitOn c xs
      else (case splitOn c xs of [] \<Rightarrow> [[x]] | s # ss \<Rightarrow> (x # s) # ss))"

fun joinOn :: "char \<Rightarrow> string list \<Rightarrow> string" where
  "joinOn c [] = []"
| "joinOn c [s] = s"
| "joinOn c (s # t # ss) = s @ c # joinOn c (t # ss)"

definition segments :: "string \<Rightarrow> string list" where
  "segments name = splitOn CHR ''-'' name"

definition allButLastTwo :: "string \<Rightarrow> string" where
  "allButLastTwo name = joinOn CHR ''-'' (butlast (butlast (segments name)))"

text \<open>The number a string of decimal digits stands for.\<close>

definition decimalValue :: "string \<Rightarrow> int" where
  "decimalValue ds = foldl (\<lambda>v c. v * 10 + (byte c - 48)) 0 ds"

definition allDigits :: "string \<Rightarrow> bool" where
  "allDigits ds = (ds \<noteq> [] \<and> list_all isDigit ds)"

text \<open>
  The characters of a word that \<open>%s\<close> reads as it stands: ASCII and not a space.  The
  characters of an image reference that \<open>%q\<close> reads as it stands: ASCII other than the
  double quote, the backslash and the line feed.
\<close>

definition wordChar :: "char \<Rightarrow> bool" where
  "wordChar c = (byte c < 128 \<and> \<not> isSpace (byte c))"

definition plainChar :: "char \<Rightarrow> bool" where
  "plainChar c = (byte c < 128 \<and> c \<noteq> CHR 0x22 \<and> c \<noteq> CHR 0x5C \<and> c \<noteq> CHR 0x0A)"

definition isWord :: "string \<Rightarrow> bool" where
  "isWord w = (w \<noteq> [] \<and> list_all wordChar w)"

text \<open>The same message without the period at its end.\<close>

definition pulledMessageNoPeriod :: "string \<Rightarrow> string \<Rightarrow> string \<Rightarrow> string \<Rightarrow> string" where
  "pulledMessageNoPeriod ref d1 d2 n =
     ''Successfully pulled image '' @ [CHR 0x22] @ ref @ [CHR 0x22] @ '' in '' @ d1 @ '' (''
       @ d2 @ '' including waiting). Image size: '' @ n @ '' bytes''"

section \<open>Basic facts\<close>

lemma sint_word_of_int_64:
  "- (2 ^ 63) \<le> x \<Longrightarrow> x < 2 ^ 63 \<Longrightarrow> sint (word_of_int x :: 64 word) = x"
  by (simp add: sint_sbintrunc' signed_take_bit_int_eq_self)

lemma sint_64_bounds: "- (2 ^ 63) \<le> sint (d :: 64 word) \<and> sint d < 2 ^ 63"
  using sint_ge [of d] sint_lt [of d] by simp

lemma sdiv_million:
  "(x :: int) sdiv 1000000 = (if 0 \<le> x then x div 1000000 else - ((- x) div 1000000))"
  by (simp add: signed_divide_int_def sgn_if)

lemma sint_Milliseconds:
  "sint (Milliseconds d) = (if 0 \<le> sint d then sint d div 1000000
                            else - ((- sint d) div 1000000))"
proof -
  have b: "- (2 ^ 63) \<le> sint d" "sint d < 2 ^ 63" using sint_64_bounds [of d] by simp_all
  let ?q = "if 0 \<le> sint d then sint d div 1000000 else - ((- sint d) div 1000000)"
  have "- (2 ^ 63) \<le> ?q \<and> ?q < 2 ^ 63" using b by (auto simp: div_le_mono) 
  then have "sint (word_of_int ?q :: 64 word) = ?q" by (simp add: sint_word_of_int_64)
  then show ?thesis by (simp add: Milliseconds_def sdiv_million)
qed

lemma processPulled_unfold:
  "processPulled event m =
     (case parseMessage (Message event) of
        Inl e \<Rightarrow> m
      | Inr (imageName, durationPull, durationWithWait, imageSizeInt) \<Rightarrow>
          recordAll m imageSizeInt durationPull durationWithWait
            (commonAttributes event imageName imageSizeInt))"
  by (simp add: processPulled_def processPulledLogged_def split: sum.splits prod.splits)

lemma handleAddFunc_unfold:
  "handleAddFunc ob m =
     (case ob of
        OtherObject \<Rightarrow> m
      | EventPtr event \<Rightarrow>
          if wrongKind event then m
          else if alreadyPresent (Message event) then m
          else processPulled event m)"
  by (simp add: handleAddFunc_def handleAddFuncLogged_def processPulled_def
           split: obj.splits prod.splits)

lemma handleAddFunc_accepted:
  "accept event \<Longrightarrow> handleAddFunc (EventPtr event) m = processPulled event m"
  by (simp add: handleAddFunc_unfold accept_def)

lemma handleAddFunc_rejected:
  "\<not> accept event \<Longrightarrow> handleAddFunc (EventPtr event) m = m"
  by (auto simp: handleAddFunc_unfold accept_def)

lemma processPulled_parsed:
  "parseMessage (Message event) = Inr (imageName, durationPull, durationWithWait, imageSizeInt)
   \<Longrightarrow> processPulled event m =
       recordAll m imageSizeInt durationPull durationWithWait
         (commonAttributes event imageName imageSizeInt)"
  by (simp add: processPulled_unfold)

lemma processPulled_failed:
  "parseMessage (Message event) = Inl e \<Longrightarrow> processPulled event m = m"
  by (simp add: processPulled_unfold)

lemma added_recordAll:
  "added (imageSizeGauge m) (imageSizeGauge (recordAll m sz dp dw attrs)) = [(sz, attrs)]"
  "added (durationPullHistogram m) (durationPullHistogram (recordAll m sz dp dw attrs))
     = [(Milliseconds dp, attrs)]"
  "added (durationPullWaitOnlyHistogram m)
     (durationPullWaitOnlyHistogram (recordAll m sz dp dw attrs))
     = [(Milliseconds (dw - dp), attrs)]"
  by (simp_all add: added_def recordAll_def Record_def Let_def)

lemma added_same: "added i i = []"
  by (simp add: added_def)

lemma alreadyPresent_prefix: "alreadyPresent msg = prefix ''Container image'' msg"
proof
  assume "alreadyPresent msg"
  then have "take 15 msg = ''Container image''" by (simp add: alreadyPresent_def)
  then have "msg = ''Container image'' @ drop 15 msg" by (metis append_take_drop_id)
  then show "prefix ''Container image'' msg" by (metis prefixI)
next
  assume "prefix ''Container image'' msg"
  then obtain r where "msg = ''Container image'' @ r" by (auto simp: prefix_def)
  then show "alreadyPresent msg" by (simp add: alreadyPresent_def)
qed

section \<open>Worked examples\<close>

text \<open>
  The conversions on tokens that carry no sign, reduced to the loops that read the digits.
\<close>

lemma ParseDuration_groups:
  "s \<noteq> [] \<Longrightarrow> hd s \<noteq> CHR ''-'' \<Longrightarrow> hd s \<noteq> CHR ''+'' \<Longrightarrow> s \<noteq> ''0'' \<Longrightarrow>
   parseGroups s 0 = Inr d \<Longrightarrow> d \<le> 2 ^ 63 - 1 \<Longrightarrow> ParseDuration s = Inr (word_of_int d)"
  by (simp add: ParseDuration_def Let_def)

lemma ParseInt_digits:
  "s \<noteq> [] \<Longrightarrow> hd s \<noteq> CHR ''-'' \<Longrightarrow> hd s \<noteq> CHR ''+'' \<Longrightarrow>
   parseUintLoop s 10 1844674407370955162 18446744073709551615 0 = (un, None) \<Longrightarrow>
   un < 2 ^ 63 \<Longrightarrow> ParseInt s 10 64 = Inr (word_of_int un)"
  by (simp add: ParseInt_def ParseUint_def maxUint64_def Let_def)

text \<open>The message of the first end-to-end scenario of the specification.\<close>

lemma scan_example1:
  "Sscanf (pulledMessage ''repo/example:99cd3b4'' ''1m44.643s'' ''1m44.643s'' ''1169083618'')
     pullFormat [[], [], [], []]
   = (4, [''repo/example:99cd3b4'', ''1m44.643s'', ''1m44.643s'', ''1169083618''], None)"
  by code_simp

lemma groups_example1: "parseGroups ''1m44.643s'' 0 = Inr 104643000000"
  by code_simp

lemma uint_example1:
  "parseUintLoop ''1169083618'' 10 1844674407370955162 18446744073709551615 0
   = (1169083618, None)"
  by code_simp

lemma duration_example1: "ParseDuration ''1m44.643s'' = Inr 104643000000"
  using ParseDuration_groups [OF _ _ _ _ groups_example1] by simp

lemma parse_example1:
  "parseMessage (pulledMessage ''repo/example:99cd3b4'' ''1m44.643s'' ''1m44.643s'' ''1169083618'')
   = Inr (''repo/example:99cd3b4'', 104643000000, 104643000000, 1169083618)"
proof -
  have n: "ParseInt ''1169083618'' 10 64 = Inr 1169083618"
    using ParseInt_digits [OF _ _ _ uint_example1] by simp
  show ?thesis by (simp add: parseMessage_def scan_example1 duration_example1 n)
qed

text \<open>The message of the second scenario: 15 seconds of pulling, 45 seconds in all.\<close>

lemma scan_example2:
  "Sscanf (pulledMessage ''repo/example:99cd3b4'' ''15s'' ''45s'' ''500'')
     pullFormat [[], [], [], []]
   = (4, [''repo/example:99cd3b4'', ''15s'', ''45s'', ''500''], None)"
  by code_simp

lemma groups_example2:
  "parseGroups ''15s'' 0 = Inr 15000000000" "parseGroups ''45s'' 0 = Inr 45000000000"
  by code_simp+

lemma uint_example2:
  "parseUintLoop ''500'' 10 1844674407370955162 18446744073709551615 0 = (500, None)"
  by code_simp

lemma parse_example2:
  "parseMessage (pulledMessage ''repo/example:99cd3b4'' ''15s'' ''45s'' ''500'')
   = Inr (''repo/example:99cd3b4'', 15000000000, 45000000000, 500)"
proof -
  have d1: "ParseDuration ''15s'' = Inr 15000000000"
    using ParseDuration_groups [OF _ _ _ _ groups_example2(1)] by simp
  have d2: "ParseDuration ''45s'' = Inr 45000000000"
    using ParseDuration_groups [OF _ _ _ _ groups_example2(2)] by simp
  have n: "ParseInt ''500'' 10 64 = Inr 500"
    using ParseInt_digits [OF _ _ _ uint_example2] by simp
  show ?thesis by (simp add: parseMessage_def scan_example2 d1 d2 n)
qed

lemma accept_pulledEvent:
  "accept (pulledEvent (pulledMessage ref d1 d2 n) podName)"
  by (simp add: accept_def wrongKind_def alreadyPresent_def pulledEvent_def pulledMessage_def)

lemma Message_pulledEvent: "Message (pulledEvent msg podName) = msg"
  by (simp add: pulledEvent_def)

lemma Milliseconds_examples:
  "Milliseconds 104643000000 = 104643" "Milliseconds 15000000000 = 15000"
  "Milliseconds 30000000000 = 30000" "Milliseconds 0 = 0"
  by (simp_all add: Milliseconds_def signed_divide_int_def)

text \<open>A pull of half a millisecond, and one that is said to take longer than the whole.\<close>

lemma scan_example3:
  "Sscanf (pulledMessage ''repo/example:99cd3b4'' ''0.5ms'' ''1ms'' ''500'')
     pullFormat [[], [], [], []]
   = (4, [''repo/example:99cd3b4'', ''0.5ms'', ''1ms'', ''500''], None)"
  by code_simp

lemma scan_example4:
  "Sscanf (pulledMessage ''repo/example:99cd3b4'' ''1ms'' ''0.5ms'' ''500'')
     pullFormat [[], [], [], []]
   = (4, [''repo/example:99cd3b4'', ''1ms'', ''0.5ms'', ''500''], None)"
  by code_simp

lemma groups_example3:
  "parseGroups ''0.5ms'' 0 = Inr 500000" "parseGroups ''1ms'' 0 = Inr 1000000"
  by code_simp+

lemma duration_example3:
  "ParseDuration ''0.5ms'' = Inr 500000" "ParseDuration ''1ms'' = Inr 1000000"
  using ParseDuration_groups [OF _ _ _ _ groups_example3(1)]
        ParseDuration_groups [OF _ _ _ _ groups_example3(2)] by simp_all

lemma size_example2: "ParseInt ''500'' 10 64 = Inr 500"
  using ParseInt_digits [OF _ _ _ uint_example2] by simp

lemma parse_example3:
  "parseMessage (pulledMessage ''repo/example:99cd3b4'' ''0.5ms'' ''1ms'' ''500'')
   = Inr (''repo/example:99cd3b4'', 500000, 1000000, 500)"
  by (simp add: parseMessage_def scan_example3 duration_example3 size_example2)

lemma parse_example4:
  "parseMessage (pulledMessage ''repo/example:99cd3b4'' ''1ms'' ''0.5ms'' ''500'')
   = Inr (''repo/example:99cd3b4'', 1000000, 500000, 500)"
  by (simp add: parseMessage_def scan_example4 duration_example3 size_example2)

text \<open>A size token with a minus sign.\<close>

lemma scan_example5:
  "Sscanf (pulledMessage ''repo/example:99cd3b4'' ''15s'' ''45s'' ''-5'')
     pullFormat [[], [], [], []]
   = (4, [''repo/example:99cd3b4'', ''15s'', ''45s'', ''-5''], None)"
  by code_simp

lemma duration_example2:
  "ParseDuration ''15s'' = Inr 15000000000" "ParseDuration ''45s'' = Inr 45000000000"
  using ParseDuration_groups [OF _ _ _ _ groups_example2(1)]
        ParseDuration_groups [OF _ _ _ _ groups_example2(2)] by simp_all

section \<open>The event filter\<close>

text \<open>
  Claim C2.  The handler goes on to the message of an event (it logs the event as added
  and parses the message) if and only if the source component is \<open>kubelet\<close>, the kind
  of the involved object is \<open>Pod\<close>, the reason is \<open>Pulled\<close> and the message does not
  begin with \<open>Container image\<close>.  If one of the first three conditions fails the handler
  returns at once; if the message begins with \<open>Container image\<close> it logs that it skips
  the message and returns.  In both cases the message is not parsed and the instruments
  are as they were.
\<close>

theorem filter_four_conditions:
  "handleAddFuncLogged (EventPtr event) m =
     (if Component (Source event) = ''kubelet'' \<and> Kind (InvolvedObject event) = ''Pod''
         \<and> Reason event = ''Pulled''
      then (if prefix ''Container image'' (Message event)
            then ([SkippingEventMessage (Message event)], m)
            else (PodEventAdded (Message event) # fst (processPulledLogged event m),
                  snd (processPulledLogged event m)))
      else ([], m))
   \<and> ((\<exists>lines. fst (handleAddFuncLogged (EventPtr event) m)
                   = PodEventAdded (Message event) # lines)
        \<longleftrightarrow> (Component (Source event) = ''kubelet'' \<and> Kind (InvolvedObject event) = ''Pod''
             \<and> Reason event = ''Pulled'' \<and> \<not> prefix ''Container image'' (Message event)))
   \<and> (\<not> (Component (Source event) = ''kubelet'' \<and> Kind (InvolvedObject event) = ''Pod''
           \<and> Reason event = ''Pulled'' \<and> \<not> prefix ''Container image'' (Message event))
        \<longrightarrow> handleAddFunc (EventPtr event) m = m
            \<and> (fst (handleAddFuncLogged (EventPtr event) m) = []
                 \<or> fst (handleAddFuncLogged (EventPtr event) m)
                    = [SkippingEventMessage (Message event)]))"
  by (auto simp: handleAddFunc_def handleAddFuncLogged_def wrongKind_def
        alreadyPresent_prefix split: prod.splits)

lemma processPulledLogged_parsed:
  "parseMessage (Message event) = Inr (imageName, durationPull, durationWithWait, imageSizeInt)
   \<Longrightarrow> fst (processPulledLogged event m)
       = [RecordedMetrics durationPull (durationWithWait - durationPull) imageSizeInt]"
  by (simp add: processPulledLogged_def)

theorem filter_four_conditions_witness:
  "handleAddFuncLogged
     (EventPtr (pulledEvent ''Container image repo/example already present'' ''web-1''))
     main_instruments
   = ([SkippingEventMessage ''Container image repo/example already present''], main_instruments)
   \<and> handleAddFuncLogged
       (EventPtr ((pulledEvent ''Container image repo/example already present'' ''web-1'')
                    \<lparr>Reason := ''Created''\<rparr>))
       main_instruments
     = ([], main_instruments)
   \<and> fst (handleAddFuncLogged
            (EventPtr (pulledEvent (pulledMessage ''repo/example:99cd3b4'' ''15s'' ''45s'' ''500'')
                         ''web-1''))
            main_instruments)
     = [PodEventAdded (pulledMessage ''repo/example:99cd3b4'' ''15s'' ''45s'' ''500''),
        RecordedMetrics 15000000000 30000000000 500]"
proof -
  let ?c = "pulledEvent ''Container image repo/example already present'' ''web-1''"
  let ?e = "pulledEvent (pulledMessage ''repo/example:99cd3b4'' ''15s'' ''45s'' ''500'') ''web-1''"
  have p: "parseMessage (Message ?e) = Inr (''repo/example:99cd3b4'', 15000000000, 45000000000, 500)"
    by (simp add: Message_pulledEvent parse_example2)
  have l: "fst (processPulledLogged ?e main_instruments)
           = [RecordedMetrics 15000000000 30000000000 500]"
    using processPulledLogged_parsed [OF p, of main_instruments] by simp
  have 1: "handleAddFuncLogged (EventPtr ?c) main_instruments
           = ([SkippingEventMessage ''Container image repo/example already present''],
              main_instruments)"
    using filter_four_conditions [of ?c main_instruments] by (simp add: pulledEvent_def)
  have 2: "handleAddFuncLogged (EventPtr (?c\<lparr>Reason := ''Created''\<rparr>)) main_instruments
           = ([], main_instruments)"
    using filter_four_conditions [of "?c\<lparr>Reason := ''Created''\<rparr>" main_instruments]
    by (simp add: pulledEvent_def)
  have m: "\<not> prefix ''Container image'' (pulledMessage ''repo/example:99cd3b4'' ''15s'' ''45s'' ''500'')"
    by (simp add: pulledMessage_def)
  have 3: "fst (handleAddFuncLogged (EventPtr ?e) main_instruments)
           = [PodEventAdded (pulledMessage ''repo/example:99cd3b4'' ''15s'' ''45s'' ''500''),
              RecordedMetrics 15000000000 30000000000 500]"
    using filter_four_conditions [of ?e main_instruments] m l
    by (simp add: pulledEvent_def)
  from 1 2 3 show ?thesis by simp
qed

section \<open>The three measurements\<close>

lemma handle_parsed:
  assumes "accept event"
    and "parseMessage (Message event)
         = Inr (imageName, durationPull, durationWithWait, imageSizeInt)"
  shows "handleAddFunc (EventPtr event) m =
         recordAll m imageSizeInt durationPull durationWithWait
           (commonAttributes event imageName imageSizeInt)"
  using assms by (simp add: handleAddFunc_accepted processPulled_parsed)

lemma recordAll_eq:
  "recordAll m sz dp dw attrs =
     m\<lparr> imageSizeGauge :=
           (imageSizeGauge m)\<lparr>instRecorded := instRecorded (imageSizeGauge m) @ [(sz, attrs)]\<rparr>,
        durationPullHistogram :=
           (durationPullHistogram m)\<lparr>instRecorded :=
              instRecorded (durationPullHistogram m) @ [(Milliseconds dp, attrs)]\<rparr>,
        durationPullWaitOnlyHistogram :=
           (durationPullWaitOnlyHistogram m)\<lparr>instRecorded :=
              instRecorded (durationPullWaitOnlyHistogram m)
                @ [(Milliseconds (dw - dp), attrs)]\<rparr> \<rparr>"
  by (simp add: recordAll_def Record_def Let_def)

text \<open>
  Claim C9.  For an accepted event whose message parses, the handler records exactly three
  measurements, one on each instrument and nothing else: the size on the gauge, the
  milliseconds of the pull duration on the pull histogram, and the milliseconds of the
  wait-only duration on the wait-only histogram, all with the same attributes.  The two
  histograms are created with the bucket boundaries 15000, 30000, 45000, 60000, 120000,
  180000, 240000 and 300000.
\<close>

theorem three_measurements:
  assumes "accept event"
    and "parseMessage (Message event)
         = Inr (imageName, durationPull, durationWithWait, imageSizeInt)"
  shows "(let attrs = commonAttributes event imageName imageSizeInt in
          handleAddFunc (EventPtr event) m =
            m\<lparr> imageSizeGauge :=
                  (imageSizeGauge m)\<lparr>instRecorded :=
                     instRecorded (imageSizeGauge m) @ [(imageSizeInt, attrs)]\<rparr>,
               durationPullHistogram :=
                  (durationPullHistogram m)\<lparr>instRecorded :=
                     instRecorded (durationPullHistogram m)
                       @ [(Milliseconds durationPull, attrs)]\<rparr>,
               durationPullWaitOnlyHistogram :=
                  (durationPullWaitOnlyHistogram m)\<lparr>instRecorded :=
                     instRecorded (durationPullWaitOnlyHistogram m)
                       @ [(Milliseconds (durationWithWait - durationPull), attrs)]\<rparr> \<rparr>)
         \<and> instBoundaries (durationPullHistogram main_instruments)
             = [15000, 30000, 45000, 60000, 120000, 180000, 240000, 300000]
         \<and> instBoundaries (durationPullWaitOnlyHistogram main_instruments)
             = [15000, 30000, 45000, 60000, 120000, 180000, 240000, 300000]"
  using handle_parsed [OF assms, of m]
  by (simp add: recordAll_eq Let_def main_instruments_def)

theorem three_measurements_witness:
  "accept (pulledEvent (pulledMessage ''repo/example:99cd3b4'' ''15s'' ''45s'' ''500'') ''web-1'')
   \<and> map fst (instRecorded (imageSizeGauge (handleAddFunc
        (EventPtr (pulledEvent (pulledMessage ''repo/example:99cd3b4'' ''15s'' ''45s'' ''500'')
                     ''web-1'')) main_instruments))) = [500]
   \<and> map fst (instRecorded (durationPullHistogram (handleAddFunc
        (EventPtr (pulledEvent (pulledMessage ''repo/example:99cd3b4'' ''15s'' ''45s'' ''500'')
                     ''web-1'')) main_instruments))) = [15000]
   \<and> map fst (instRecorded (durationPullWaitOnlyHistogram (handleAddFunc
        (EventPtr (pulledEvent (pulledMessage ''repo/example:99cd3b4'' ''15s'' ''45s'' ''500'')
                     ''web-1'')) main_instruments))) = [30000]"
proof -
  let ?e = "pulledEvent (pulledMessage ''repo/example:99cd3b4'' ''15s'' ''45s'' ''500'') ''web-1''"
  have a: "accept ?e" by (rule accept_pulledEvent)
  have p: "parseMessage (Message ?e) = Inr (''repo/example:99cd3b4'', 15000000000, 45000000000, 500)"
    by (simp add: Message_pulledEvent parse_example2)
  show ?thesis
    using a three_measurements [OF a p, of main_instruments]
    by (simp add: Let_def main_instruments_def Milliseconds_examples)
qed

text \<open>
  Claim C10.  The values on the two histograms are the durations in whole milliseconds,
  truncated towards zero: for an accepted event whose message parses, the pull histogram
  gets \<open>Milliseconds durationPull\<close> and the wait-only histogram
  \<open>Milliseconds (durationWithWait - durationPull)\<close>, where \<open>Milliseconds d\<close> is the
  quotient of \<open>d\<close> by 1000000 nanoseconds rounded towards zero.  A pull duration
  strictly between 0 and 1 millisecond is recorded as 0.
\<close>

theorem milliseconds_truncate:
  assumes "accept event"
    and "parseMessage (Message event)
         = Inr (imageName, durationPull, durationWithWait, imageSizeInt)"
  shows "map fst (added (durationPullHistogram m)
                    (durationPullHistogram (handleAddFunc (EventPtr event) m)))
           = [Milliseconds durationPull]
         \<and> map fst (added (durationPullWaitOnlyHistogram m)
                    (durationPullWaitOnlyHistogram (handleAddFunc (EventPtr event) m)))
           = [Milliseconds (durationWithWait - durationPull)]
         \<and> (\<forall>d. sint (Milliseconds d) =
                  (if 0 \<le> sint d then sint d div 1000000 else - ((- sint d) div 1000000)))
         \<and> (0 < sint durationPull \<and> sint durationPull < 1000000
              \<longrightarrow> Milliseconds durationPull = 0)"
proof -
  have "0 < sint durationPull \<and> sint durationPull < 1000000 \<longrightarrow> sint (Milliseconds durationPull) = 0"
    by (simp add: sint_Milliseconds)
  then have z: "0 < sint durationPull \<and> sint durationPull < 1000000
                 \<longrightarrow> Milliseconds durationPull = 0"
    by (simp add: signed_eq_0_iff)
  show ?thesis
    using z by (simp add: handle_parsed [OF assms] added_recordAll sint_Milliseconds)
qed

theorem milliseconds_truncate_witness:
  "accept (pulledEvent (pulledMessage ''repo/example:99cd3b4'' ''0.5ms'' ''1ms'' ''500'') ''web-1'')
   \<and> (0 < sint (500000 :: 64 word) \<and> sint (500000 :: 64 word) < 1000000)
   \<and> map fst (instRecorded (durationPullHistogram (handleAddFunc
        (EventPtr (pulledEvent (pulledMessage ''repo/example:99cd3b4'' ''0.5ms'' ''1ms'' ''500'')
                     ''web-1'')) main_instruments))) = [0]
   \<and> map fst (instRecorded (durationPullWaitOnlyHistogram (handleAddFunc
        (EventPtr (pulledEvent (pulledMessage ''repo/example:99cd3b4'' ''0.5ms'' ''1ms'' ''500'')
                     ''web-1'')) main_instruments))) = [0]"
proof -
  let ?e = "pulledEvent (pulledMessage ''repo/example:99cd3b4'' ''0.5ms'' ''1ms'' ''500'') ''web-1''"
  have a: "accept ?e" by (rule accept_pulledEvent)
  have p: "parseMessage (Message ?e) = Inr (''repo/example:99cd3b4'', 500000, 1000000, 500)"
    by (simp add: Message_pulledEvent parse_example3)
  have s: "0 < sint (500000 :: 64 word) \<and> sint (500000 :: 64 word) < 1000000" by simp
  have w: "Milliseconds (1000000 - 500000) = 0"
    by (simp add: Milliseconds_def signed_divide_int_def)
  show ?thesis
    using a s milliseconds_truncate [OF a p, of main_instruments]
    by (simp add: added_def main_instruments_def w)
qed

section \<open>The wait-only duration\<close>

lemma sint_minus_64:
  "- (2 ^ 63) \<le> sint a - sint b \<Longrightarrow> sint a - sint b < 2 ^ 63
   \<Longrightarrow> sint (a - b :: 64 word) = sint a - sint b"
  by (simp add: sint_word_ariths signed_take_bit_int_eq_self)

lemma Milliseconds_small_negative:
  assumes "sint dw < sint dp" and "sint dp < sint dw + 1000000"
  shows "Milliseconds (dw - dp) = 0"
proof -
  have "sint (dw - dp) = sint dw - sint dp"
    using assms sint_64_bounds [of dw] sint_64_bounds [of dp] by (intro sint_minus_64) auto
  then have "sint (Milliseconds (dw - dp)) = 0"
    using assms by (simp add: sint_Milliseconds)
  then show ?thesis by (simp add: signed_eq_0_iff)
qed

text \<open>
  Claim C3, as amended.  For an accepted event whose message parses, the value recorded on
  the wait-only histogram is the difference of the total and the pull duration, taken in
  64 bits, in whole milliseconds truncated towards zero; nothing clamps it.  Where the
  difference does not overflow: if the total duration is at least one millisecond less
  than the pull duration the recorded value is negative, and if it is less by under one
  millisecond the recorded value is 0.
\<close>

theorem wait_only_difference:
  assumes "accept event"
    and "parseMessage (Message event)
         = Inr (imageName, durationPull, durationWithWait, imageSizeInt)"
  shows "map fst (added (durationPullWaitOnlyHistogram m)
                    (durationPullWaitOnlyHistogram (handleAddFunc (EventPtr event) m)))
           = [Milliseconds (durationWithWait - durationPull)]
         \<and> (- (2 ^ 63) \<le> sint durationWithWait - sint durationPull
              \<and> sint durationWithWait - sint durationPull < 2 ^ 63
              \<longrightarrow> sint (Milliseconds (durationWithWait - durationPull))
                  = (sint durationWithWait - sint durationPull) sdiv 1000000)
         \<and> (- (2 ^ 63) \<le> sint durationWithWait - sint durationPull
              \<and> sint durationWithWait + 1000000 \<le> sint durationPull
              \<longrightarrow> sint (Milliseconds (durationWithWait - durationPull)) < 0)
         \<and> (sint durationWithWait < sint durationPull
              \<and> sint durationPull < sint durationWithWait + 1000000
              \<longrightarrow> Milliseconds (durationWithWait - durationPull) = 0)"
proof -
  let ?x = "sint durationWithWait - sint durationPull"
  have b: "- (2 ^ 63) \<le> sint durationWithWait" "sint durationWithWait < 2 ^ 63"
    "- (2 ^ 63) \<le> sint durationPull" "sint durationPull < 2 ^ 63"
    using sint_64_bounds [of durationWithWait] sint_64_bounds [of durationPull] by simp_all
  have r: "- (2 ^ 63) \<le> ?x \<and> ?x < 2 ^ 63
           \<longrightarrow> sint (Milliseconds (durationWithWait - durationPull)) = ?x sdiv 1000000"
    by (simp add: sint_Milliseconds sint_minus_64 sdiv_million)
  have n: "- (2 ^ 63) \<le> ?x \<and> sint durationWithWait + 1000000 \<le> sint durationPull
           \<longrightarrow> sint (Milliseconds (durationWithWait - durationPull)) < 0"
  proof (intro impI)
    assume h: "- (2 ^ 63) \<le> ?x \<and> sint durationWithWait + 1000000 \<le> sint durationPull"
    then have "sint (durationWithWait - durationPull) = ?x"
      using b by (intro sint_minus_64) auto
    moreover have "(1000000 :: int) div 1000000 \<le> (- ?x) div 1000000"
      using h by (intro zdiv_mono1) auto
    then have "1 \<le> (- ?x) div 1000000" by simp
    ultimately show "sint (Milliseconds (durationWithWait - durationPull)) < 0"
      using h by (simp add: sint_Milliseconds)
  qed
  have z: "sint durationWithWait < sint durationPull
           \<and> sint durationPull < sint durationWithWait + 1000000
           \<longrightarrow> Milliseconds (durationWithWait - durationPull) = 0"
  proof (intro impI)
    assume h: "sint durationWithWait < sint durationPull
               \<and> sint durationPull < sint durationWithWait + 1000000"
    then have "sint (durationWithWait - durationPull) = ?x"
      using b by (intro sint_minus_64) auto
    then have "sint (Milliseconds (durationWithWait - durationPull)) = 0"
      using h by (simp add: sint_Milliseconds)
    then show "Milliseconds (durationWithWait - durationPull) = 0"
      by (simp add: signed_eq_0_iff)
  qed
  show ?thesis
    using r n z by (simp add: handle_parsed [OF assms] added_recordAll)
qed

theorem wait_only_difference_witness:
  "accept (pulledEvent (pulledMessage ''repo/example:99cd3b4'' ''15s'' ''45s'' ''500'') ''web-1'')
   \<and> parseMessage (pulledMessage ''repo/example:99cd3b4'' ''15s'' ''45s'' ''500'')
       = Inr (''repo/example:99cd3b4'', 15000000000, 45000000000, 500)
   \<and> map fst (instRecorded (durationPullWaitOnlyHistogram (handleAddFunc
        (EventPtr (pulledEvent (pulledMessage ''repo/example:99cd3b4'' ''15s'' ''45s'' ''500'')
                     ''web-1'')) main_instruments))) = [30000]
   \<and> map fst (instRecorded (durationPullHistogram (handleAddFunc
        (EventPtr (pulledEvent (pulledMessage ''repo/example:99cd3b4'' ''15s'' ''45s'' ''500'')
                     ''web-1'')) main_instruments))) = [15000]"
proof -
  let ?e = "pulledEvent (pulledMessage ''repo/example:99cd3b4'' ''15s'' ''45s'' ''500'') ''web-1''"
  have a: "accept ?e" by (rule accept_pulledEvent)
  have p: "parseMessage (Message ?e) = Inr (''repo/example:99cd3b4'', 15000000000, 45000000000, 500)"
    by (simp add: Message_pulledEvent parse_example2)
  have pull: "map fst (instRecorded (durationPullHistogram
                (handleAddFunc (EventPtr ?e) main_instruments))) = [15000]"
    by (simp add: handle_parsed [OF a p] recordAll_eq main_instruments_def Milliseconds_examples)
  show ?thesis
    using a pull wait_only_difference [OF a p, of main_instruments]
    by (simp add: added_def main_instruments_def parse_example2 Milliseconds_examples)
qed

text \<open>
  The claim as it was stated fails where the total duration is less than the pull
  duration by under a millisecond: the message below says 1ms of pulling and 0.5ms in
  all, and the value recorded on the wait-only histogram is 0, not a negative number.
\<close>

theorem wait_only_difference_counterexample:
  "parseMessage (pulledMessage ''repo/example:99cd3b4'' ''1ms'' ''0.5ms'' ''500'')
     = Inr (''repo/example:99cd3b4'', 1000000, 500000, 500)
   \<and> sint (500000 :: 64 word) < sint (1000000 :: 64 word)
   \<and> map (\<lambda>(v, attrs). sint v) (instRecorded (durationPullWaitOnlyHistogram (handleAddFunc
        (EventPtr (pulledEvent (pulledMessage ''repo/example:99cd3b4'' ''1ms'' ''0.5ms'' ''500'')
                     ''web-1'')) main_instruments))) = [0]"
proof -
  let ?e = "pulledEvent (pulledMessage ''repo/example:99cd3b4'' ''1ms'' ''0.5ms'' ''500'') ''web-1''"
  have a: "accept ?e" by (rule accept_pulledEvent)
  have p: "parseMessage (Message ?e) = Inr (''repo/example:99cd3b4'', 1000000, 500000, 500)"
    by (simp add: Message_pulledEvent parse_example4)
  have h: "handleAddFunc (EventPtr ?e) main_instruments
           = recordAll main_instruments 500 1000000 500000
               (commonAttributes ?e ''repo/example:99cd3b4'' 500)"
    by (rule handle_parsed [OF a p])
  have "Milliseconds (500000 - 1000000) = 0"
    by (rule Milliseconds_small_negative) simp_all
  then have w: "Milliseconds (- 500000) = 0" by simp
  show ?thesis
    unfolding h by (simp add: parse_example4 recordAll_eq main_instruments_def w)
qed

section \<open>The prefix of the pod name\<close>

declare backtrack.simps [simp del]

lemma firstSome_None: "firstSome xs = None \<longleftrightarrow> (\<forall>x \<in> set xs. x = None)"
  by (induction xs rule: firstSome.induct) auto

lemma firstSome_in: "firstSome xs = Some v \<Longrightarrow> Some v \<in> set xs"
  by (induction xs rule: firstSome.induct) auto

lemma greedy_Suc:
  "rev [0..<Suc (Suc k)] = Suc k # rev [0..<Suc k]"
  by simp

lemma firstSome_down_None:
  "firstSome (map f (rev [0..<Suc k])) = None \<longleftrightarrow> (\<forall>n \<le> k. f n = None)"
  by (auto simp: firstSome_None less_Suc_eq_le)

lemma firstSome_down_Some:
  "f n = Some v \<Longrightarrow> n \<le> k \<Longrightarrow> (\<And>j. n < j \<Longrightarrow> j \<le> k \<Longrightarrow> f j = None)
   \<Longrightarrow> firstSome (map f (rev [0..<Suc k])) = Some v"
proof (induction k)
  case 0
  then show ?case by simp
next
  case (Suc k)
  show ?case
  proof (cases "n = Suc k")
    case True
    with Suc.prems(1) show ?thesis by simp
  next
    case False
    with Suc.prems(2) have le: "n \<le> k" by simp
    have none: "f (Suc k) = None" using Suc.prems(3) [of "Suc k"] le by simp
    have "firstSome (map f (rev [0..<Suc k])) = Some v"
      using Suc.IH [OF Suc.prems(1) le] Suc.prems(3) by simp
    with none show ?thesis by simp
  qed
qed

lemma takeWhile_length_le: "length (takeWhile P s) \<le> length s"
  by (rule length_takeWhile_le)

lemma takeWhile_full: "length (takeWhile P s) = length s \<longleftrightarrow> (\<forall>x \<in> set s. P x)"
  by (metis takeWhile_eq_all_conv length_takeWhile_le takeWhile_eq_take take_all_iff le_refl)

lemma take_prefix_no_newline:
  "n \<le> length (takeWhile (\<lambda>c. c \<noteq> CHR 0x0A) s) \<Longrightarrow> CHR 0x0A \<notin> set (take n s)"
proof -
  assume n: "n \<le> length (takeWhile (\<lambda>c. c \<noteq> CHR 0x0A) s)"
  have "take n s = take n (takeWhile (\<lambda>c. c \<noteq> CHR 0x0A) s)"
    by (metis n takeWhile_dropWhile_id take_append diff_is_0_eq take_0 append_Nil2)
  then have "set (take n s) \<subseteq> set (takeWhile (\<lambda>c. c \<noteq> CHR 0x0A) s)"
    by (metis set_take_subset)
  then show ?thesis by (auto dest: set_takeWhileD)
qed

lemma backtrack_AnyStar:
  "backtrack [AnyStar] s = (if CHR 0x0A \<notin> set s then Some [] else None)"
proof (cases "CHR 0x0A \<notin> set s")
  case True
  then have k: "length (takeWhile (\<lambda>c. c \<noteq> CHR 0x0A) s) = length s"
    by (auto simp: takeWhile_full)
  have "firstSome (map (\<lambda>n. backtrack [] (drop n s)) (rev [0..<Suc (length s)])) = Some []"
    by (rule firstSome_down_Some [where n = "length s"]) (simp_all add: backtrack.simps)
  with True k show ?thesis by (simp add: greedy_def backtrack.simps(3))
next
  case False
  then have "length (takeWhile (\<lambda>c. c \<noteq> CHR 0x0A) s) \<noteq> length s"
    by (auto simp: takeWhile_full)
  then have lt: "length (takeWhile (\<lambda>c. c \<noteq> CHR 0x0A) s) < length s"
    using length_takeWhile_le [of "\<lambda>c. c \<noteq> CHR 0x0A" s] by simp
  have "firstSome (map (\<lambda>n. backtrack [] (drop n s))
          (rev [0..<Suc (length (takeWhile (\<lambda>c. c \<noteq> CHR 0x0A) s))])) = None"
    unfolding firstSome_down_None using lt by (auto simp: backtrack.simps)
  with False show ?thesis by (simp add: greedy_def backtrack.simps(3))
qed

lemma backtrack_Dash_AnyStar:
  "backtrack [Lit CHR ''-'', AnyStar] s =
     (if s \<noteq> [] \<and> hd s = CHR ''-'' \<and> CHR 0x0A \<notin> set (tl s) then Some [] else None)"
  by (cases s) (simp_all add: backtrack_AnyStar backtrack.simps(2))

lemma backtrack_AnyStar_Dash_AnyStar:
  "backtrack [AnyStar, Lit CHR ''-'', AnyStar] s =
     (if CHR ''-'' \<in> set s \<and> CHR 0x0A \<notin> set s then Some [] else None)"
proof -
  let ?k = "length (takeWhile (\<lambda>c. c \<noteq> CHR 0x0A) s)"
  let ?f = "\<lambda>n. backtrack [Lit CHR ''-'', AnyStar] (drop n s)"
  have unfold: "backtrack [AnyStar, Lit CHR ''-'', AnyStar] s
                = firstSome (map ?f (rev [0..<Suc ?k]))"
    by (simp add: greedy_def backtrack.simps(3))
  show ?thesis
  proof (cases "CHR ''-'' \<in> set s \<and> CHR 0x0A \<notin> set s")
    case True
    then obtain x y where s: "s = x @ CHR ''-'' # y" by (meson split_list)
    from True have k: "?k = length s" by (auto simp: takeWhile_full)
    have nl: "CHR 0x0A \<notin> set y" using True s by auto
    have fx: "?f (length x) = Some []" using s nl by (simp add: backtrack_Dash_AnyStar)
    have lx: "length x \<le> ?k" using k s by simp
    have "firstSome (map ?f (rev [0..<Suc ?k])) \<noteq> None"
    proof
      assume "firstSome (map ?f (rev [0..<Suc ?k])) = None"
      then have "\<forall>n \<le> ?k. ?f n = None" by (simp only: firstSome_down_None)
      with fx lx show False by auto
    qed
    moreover have "firstSome (map ?f (rev [0..<Suc ?k])) = Some v \<Longrightarrow> v = []" for v
    proof -
      assume a: "firstSome (map ?f (rev [0..<Suc ?k])) = Some v"
      then have "Some v \<in> set (map ?f (rev [0..<Suc ?k]))" by (rule firstSome_in)
      then obtain n where "?f n = Some v" by auto
      then show "v = []" by (simp add: backtrack_Dash_AnyStar split: if_splits)
    qed
    ultimately have "firstSome (map ?f (rev [0..<Suc ?k])) = Some []"
      by (cases "firstSome (map ?f (rev [0..<Suc ?k]))") auto
    with True unfold show ?thesis by simp
  next
    case False
    have "\<forall>n \<le> ?k. ?f n = None"
    proof (intro allI impI)
      fix n assume n: "n \<le> ?k"
      show "?f n = None"
      proof (rule ccontr)
        assume "?f n \<noteq> None"
        then have d: "drop n s \<noteq> []" "hd (drop n s) = CHR ''-''"
          "CHR 0x0A \<notin> set (tl (drop n s))"
          by (simp_all add: backtrack_Dash_AnyStar split: if_splits)
        have "CHR ''-'' \<in> set (drop n s)" using d(1,2) by (metis hd_in_set)
        then have dash: "CHR ''-'' \<in> set s" by (metis in_set_dropD)
        have "set s = set (take n s) \<union> set (drop n s)"
          by (metis append_take_drop_id set_append)
        moreover have "set (drop n s) = insert (CHR ''-'') (set (tl (drop n s)))"
          using d(1,2) by (cases "drop n s") auto
        ultimately have "CHR 0x0A \<notin> set s"
          using take_prefix_no_newline [OF n] d(3) by auto
        with dash False show False by simp
      qed
    qed
    then have "firstSome (map ?f (rev [0..<Suc ?k])) = None"
      by (simp only: firstSome_down_None)
    with False unfold show ?thesis by simp
  qed
qed

lemma backtrack_tail:
  "backtrack [Lit CHR ''-'', AnyStar, Lit CHR ''-'', AnyStar] s =
     (if s \<noteq> [] \<and> hd s = CHR ''-'' \<and> CHR ''-'' \<in> set (tl s) \<and> CHR 0x0A \<notin> set (tl s)
      then Some [] else None)"
  by (cases s) (simp_all add: backtrack_AnyStar_Dash_AnyStar backtrack.simps(2))

text \<open>
  The match of the whole expression: the group takes everything in front of the last but
  one dash.
\<close>

lemma backtrack_podPrefixRe_match:
  assumes s: "s = p @ CHR ''-'' # a @ CHR ''-'' # b"
    and a: "CHR ''-'' \<notin> set a" and b: "CHR ''-'' \<notin> set b" and nl: "CHR 0x0A \<notin> set s"
  shows "backtrack podPrefixRe s = Some [p]"
proof -
  let ?k = "length (takeWhile (\<lambda>c. c \<noteq> CHR 0x0A) s)"
  let ?g = "\<lambda>n. map_option (\<lambda>caps. take n s # caps)
                 (backtrack [Lit CHR ''-'', AnyStar, Lit CHR ''-'', AnyStar] (drop n s))"
  have unfold: "backtrack podPrefixRe s = firstSome (map ?g (rev [0..<Suc ?k]))"
    by (simp add: podPrefixRe_def greedy_def backtrack.simps(4))
  from nl have k: "?k = length s" by (auto simp: takeWhile_full)
  have gp: "?g (length p) = Some [p]" using s nl by (simp add: backtrack_tail)
  have later: "?g j = None" if j: "length p < j" "j \<le> ?k" for j
  proof -
    obtain i where i: "j = Suc (length p + i)" using j(1) by (metis less_iff_Suc_add add_Suc_right)
    have d: "drop j s = drop i (a @ CHR ''-'' # b)" using s i by simp
    show ?thesis
    proof (cases "i \<le> length a")
      case True
      have d2: "drop j s = drop i a @ CHR ''-'' # b" using d True by simp
      show ?thesis
      proof (cases "i = length a")
        case True
        with d2 have "drop j s = CHR ''-'' # b" by simp
        with b show ?thesis by (simp add: backtrack_tail)
      next
        case False
        with True have "i < length a" by simp
        then have "drop i a \<noteq> []" by simp
        then have "hd (drop j s) = hd (drop i a)" using d2 by simp
        moreover have "hd (drop i a) \<in> set a"
          using \<open>drop i a \<noteq> []\<close> by (metis hd_in_set in_set_dropD)
        ultimately have "hd (drop j s) \<noteq> CHR ''-''" using a by auto
        then show ?thesis by (simp add: backtrack_tail)
      qed
    next
      case False
      define i' where "i' = i - Suc (length a)"
      with False have "i = Suc (length a + i')" by simp
      then have d3: "drop j s = drop i' b" using d by simp
      have "set (drop j s) \<subseteq> set b" unfolding d3 by (rule set_drop_subset)
      then have "drop j s = [] \<or> hd (drop j s) \<noteq> CHR ''-''" using b
        by (metis hd_in_set subsetD)
      then show ?thesis by (auto simp: backtrack_tail)
    qed
  qed
  have "firstSome (map ?g (rev [0..<Suc ?k])) = Some [p]"
    by (rule firstSome_down_Some [where n = "length p"]) (use gp k s later in auto)
  with unfold show ?thesis by simp
qed

lemma backtrack_podPrefixRe_Some:
  assumes "backtrack podPrefixRe s = Some caps"
  shows "CHR 0x0A \<notin> set s \<and> (\<exists>x t. s = x @ CHR ''-'' # t \<and> CHR ''-'' \<in> set t)"
proof -
  let ?k = "length (takeWhile (\<lambda>c. c \<noteq> CHR 0x0A) s)"
  let ?g = "\<lambda>n. map_option (\<lambda>caps. take n s # caps)
                 (backtrack [Lit CHR ''-'', AnyStar, Lit CHR ''-'', AnyStar] (drop n s))"
  have unfold: "backtrack podPrefixRe s = firstSome (map ?g (rev [0..<Suc ?k]))"
    by (simp add: podPrefixRe_def greedy_def backtrack.simps(4))
  from assms have "firstSome (map ?g (rev [0..<Suc ?k])) = Some caps" by (simp only: unfold)
  then have "Some caps \<in> set (map ?g (rev [0..<Suc ?k]))" by (rule firstSome_in)
  then obtain n where nn: "n \<in> set (rev [0..<Suc ?k])" and g': "Some caps = ?g n"
    unfolding set_map by (rule imageE)
  from nn have n: "n \<le> ?k" by auto
  from g' have g: "?g n = Some caps" by simp
  from g have d: "drop n s \<noteq> []" "hd (drop n s) = CHR ''-''"
    "CHR ''-'' \<in> set (tl (drop n s))" "CHR 0x0A \<notin> set (tl (drop n s))"
    by (simp_all add: backtrack_tail split: if_splits)
  from d(1,2) have dn: "drop n s = CHR ''-'' # tl (drop n s)" by (cases "drop n s") auto
  have s: "s = take n s @ CHR ''-'' # tl (drop n s)"
    using dn by (metis append_take_drop_id)
  have "set s = set (take n s) \<union> insert (CHR ''-'') (set (tl (drop n s)))"
    by (subst s) simp
  then have "CHR 0x0A \<notin> set s" using take_prefix_no_newline [OF n] d(4) by auto
  with s d(3) show ?thesis by blast
qed

subsection \<open>Segments\<close>

lemma splitOn_nonempty: "splitOn c s \<noteq> []"
  by (induction s) (auto split: list.splits)

lemma splitOn_none: "c \<notin> set s \<Longrightarrow> splitOn c s = [s]"
  by (induction s) auto

lemma splitOn_append:
  "splitOn c (x @ c # t) = splitOn c x @ splitOn c t"
  by (induction x) (auto split: list.splits simp: splitOn_nonempty)

lemma splitOn_dash_length: "c \<in> set t \<Longrightarrow> 2 \<le> length (splitOn c t)"
proof -
  assume "c \<in> set t"
  then obtain x y where "t = x @ c # y" by (meson split_list)
  then have "length (splitOn c t) = length (splitOn c x) + length (splitOn c y)"
    by (simp add: splitOn_append)
  moreover have "1 \<le> length (splitOn c x)" "1 \<le> length (splitOn c y)"
    using splitOn_nonempty [of c x] splitOn_nonempty [of c y]
    by (simp_all add: Suc_le_eq)
  ultimately show ?thesis by simp
qed

lemma joinOn_append_single:
  "xs \<noteq> [] \<Longrightarrow> joinOn c (xs @ [y]) = joinOn c xs @ c # y"
  by (induction c xs rule: joinOn.induct) auto

lemma joinOn_splitOn: "joinOn c (splitOn c s) = s"
proof (induction s)
  case Nil
  then show ?case by simp
next
  case (Cons x xs)
  obtain h r where sp: "splitOn c xs = h # r" using splitOn_nonempty [of c xs] by (cases "splitOn c xs") auto
  show ?case
  proof (cases "x = c")
    case True
    with Cons sp show ?thesis by simp
  next
    case False
    have "joinOn c ((x # h) # r) = x # joinOn c (h # r)" by (cases r) auto
    with Cons sp False show ?thesis by simp
  qed
qed

text \<open>A name of at least three segments, cut at its last two dashes.\<close>

lemma three_segments_split:
  assumes "3 \<le> length (splitOn c s)"
  shows "\<exists>p a b. s = p @ c # a @ c # b \<and> c \<notin> set a \<and> c \<notin> set b
                 \<and> splitOn c s = splitOn c p @ [a, b]"
proof -
  have "c \<in> set s" using assms splitOn_none [of c s] by (cases "c \<in> set s") auto
  then obtain x b where xb: "s = x @ c # b" "c \<notin> set b" by (meson split_list_last)
  then have sp: "splitOn c s = splitOn c x @ [b]" by (simp add: splitOn_append splitOn_none)
  with assms have "2 \<le> length (splitOn c x)" by simp
  then have "c \<in> set x" using splitOn_none [of c x] by (cases "c \<in> set x") auto
  then obtain p a where pa: "x = p @ c # a" "c \<notin> set a" by (meson split_list_last)
  then have "splitOn c x = splitOn c p @ [a]" by (simp add: splitOn_append splitOn_none)
  with sp have "splitOn c s = splitOn c p @ [a, b]" by simp
  moreover have "s = p @ c # a @ c # b" using xb(1) pa(1) by simp
  ultimately show ?thesis using xb(2) pa(2) by blast
qed

lemma backtrack_podPrefixRe:
  "backtrack podPrefixRe s =
     (if CHR 0x0A \<notin> set s \<and> 3 \<le> length (segments s) then Some [allButLastTwo s] else None)"
proof (cases "CHR 0x0A \<notin> set s \<and> 3 \<le> length (segments s)")
  case True
  then have "3 \<le> length (splitOn CHR ''-'' s)" by (simp add: segments_def)
  from three_segments_split [OF this]
  obtain p a b where d: "s = p @ CHR ''-'' # a @ CHR ''-'' # b" "CHR ''-'' \<notin> set a"
      "CHR ''-'' \<notin> set b" "segments s = segments p @ [a, b]"
    unfolding segments_def by blast
  have "butlast (butlast (segments p @ [a, b])) = segments p"
    by (simp add: butlast_append)
  then have "allButLastTwo s = p" by (simp add: allButLastTwo_def d(4)) (simp add: segments_def joinOn_splitOn)
  with True backtrack_podPrefixRe_match [OF d(1-3)] show ?thesis by simp
next
  case False
  have "backtrack podPrefixRe s = None"
  proof (rule ccontr)
    assume "backtrack podPrefixRe s \<noteq> None"
    then obtain caps where "backtrack podPrefixRe s = Some caps" by auto
    then obtain x t where nl: "CHR 0x0A \<notin> set s" and s: "s = x @ CHR ''-'' # t"
        and t: "CHR ''-'' \<in> set t"
      using backtrack_podPrefixRe_Some by blast
    have "length (segments s) = length (segments x) + length (segments t)"
      by (simp add: segments_def s splitOn_append)
    moreover have "1 \<le> length (segments x)"
      using splitOn_nonempty [of "CHR ''-''" x] by (simp add: segments_def Suc_le_eq)
    moreover have "2 \<le> length (segments t)" using t by (simp add: segments_def splitOn_dash_length)
    ultimately have "3 \<le> length (segments s)" by simp
    with nl False show False by simp
  qed
  with False show ?thesis by simp
qed

section \<open>The attributes\<close>

lemma FindStringSubmatch_podPrefixRe:
  "FindStringSubmatch podPrefixRe s =
     (if CHR 0x0A \<notin> set s \<and> 3 \<le> length (segments s) then [s, allButLastTwo s] else [])"
  by (simp add: FindStringSubmatch_def backtrack_podPrefixRe)

lemma commonAttributes_eq:
  "commonAttributes event imageName imageSizeInt =
     [(''observed.timestamp'', Int64Value (UnixMilli (LastTimestamp event))),
      (''exported.namespace'', StringValue (Namespace event)),
      (''exported.pod.name'', StringValue (Name (InvolvedObject event))),
      (''exported.container.name'', StringValue (Name (InvolvedObject event))),
      (''exported.pod.image'', StringValue imageName),
      (''exported.pod.image.size'', Int64Value imageSizeInt),
      (''exported.host'', StringValue (Host (Source event)))]
     @ (if CHR 0x0A \<notin> set (Name (InvolvedObject event))
           \<and> 3 \<le> length (segments (Name (InvolvedObject event)))
        then [(''exported.pod.prefix'',
               StringValue (allButLastTwo (Name (InvolvedObject event))))]
        else [])"
  by (simp add: commonAttributes_def Let_def FindStringSubmatch_podPrefixRe)

lemma segments_examples:
  "segments ''k8s-image-pull-metrics-5f588dd8cf-8lnm4''
     = [''k8s'', ''image'', ''pull'', ''metrics'', ''5f588dd8cf'', ''8lnm4'']"
  "segments ''single'' = [''single'']"
  "segments ''a-b'' = [''a'', ''b'']"
  "segments ''web-1'' = [''web'', ''1'']"
  by (simp_all add: segments_def)

text \<open>
  Claim C5.  For every pod name, the prefix tag is present if and only if the name has at
  least three dash-separated segments; its value is then the name up to, but not
  including, its last two segments and the dashes in front of them.  A pod name is a
  Kubernetes object name (lower-case letters, digits, dashes and dots); what the theorem
  uses of that is that it has no line feed in it, the one character that the \<open>.\<close> of
  the expression does not match.
\<close>

theorem pod_prefix_tag:
  assumes "CHR 0x0A \<notin> set (Name (InvolvedObject event))"
  shows "map_of (commonAttributes event imageName imageSizeInt) ''exported.pod.prefix'' =
           (if 3 \<le> length (segments (Name (InvolvedObject event)))
            then Some (StringValue (allButLastTwo (Name (InvolvedObject event))))
            else None)"
  using assms by (simp add: commonAttributes_eq)

theorem pod_prefix_tag_witness:
  "CHR 0x0A \<notin> set (Name (InvolvedObject
       (pulledEvent [] ''k8s-image-pull-metrics-5f588dd8cf-8lnm4'')))
   \<and> CHR 0x0A \<notin> set (Name (InvolvedObject (pulledEvent [] ''single'')))
   \<and> CHR 0x0A \<notin> set (Name (InvolvedObject (pulledEvent [] ''a-b'')))
   \<and> map_of (commonAttributes (pulledEvent [] ''k8s-image-pull-metrics-5f588dd8cf-8lnm4'')
              ''repo'' 1)
        ''exported.pod.prefix'' = Some (StringValue ''k8s-image-pull-metrics'')
   \<and> map_of (commonAttributes (pulledEvent [] ''single'') ''repo'' 1) ''exported.pod.prefix''
       = None
   \<and> map_of (commonAttributes (pulledEvent [] ''a-b'') ''repo'' 1) ''exported.pod.prefix''
       = None"
proof -
  have 1: "CHR 0x0A \<notin> set (Name (InvolvedObject
             (pulledEvent [] ''k8s-image-pull-metrics-5f588dd8cf-8lnm4'')))"
    by (simp add: pulledEvent_def)
  have 2: "CHR 0x0A \<notin> set (Name (InvolvedObject (pulledEvent [] ''single'')))"
    by (simp add: pulledEvent_def)
  have 3: "CHR 0x0A \<notin> set (Name (InvolvedObject (pulledEvent [] ''a-b'')))"
    by (simp add: pulledEvent_def)
  show ?thesis
    using 1 2 3 pod_prefix_tag [OF 1, of "''repo''" 1] pod_prefix_tag [OF 2, of "''repo''" 1]
          pod_prefix_tag [OF 3, of "''repo''" 1]
    by (simp add: pulledEvent_def allButLastTwo_def segments_examples)
qed

text \<open>
  Claim C6.  For an accepted event whose message parses, the three measurements carry the
  same attribute list.  Its keys are \<open>observed.timestamp\<close>, \<open>exported.namespace\<close>,
  \<open>exported.pod.name\<close>, \<open>exported.container.name\<close>, \<open>exported.pod.image\<close>,
  \<open>exported.pod.image.size\<close> and \<open>exported.host\<close>, followed or not by
  \<open>exported.pod.prefix\<close>, and no others.  The timestamp is the last timestamp of the
  event in milliseconds since the epoch, and the container name has the value of the pod
  name.
\<close>

theorem attribute_set:
  assumes "accept event"
    and "parseMessage (Message event)
         = Inr (imageName, durationPull, durationWithWait, imageSizeInt)"
  shows "(let attrs = commonAttributes event imageName imageSizeInt;
              m' = handleAddFunc (EventPtr event) m
          in map snd (added (imageSizeGauge m) (imageSizeGauge m')) = [attrs]
           \<and> map snd (added (durationPullHistogram m) (durationPullHistogram m')) = [attrs]
           \<and> map snd (added (durationPullWaitOnlyHistogram m)
                          (durationPullWaitOnlyHistogram m')) = [attrs]
           \<and> (map fst attrs =
                 [''observed.timestamp'', ''exported.namespace'', ''exported.pod.name'',
                  ''exported.container.name'', ''exported.pod.image'',
                  ''exported.pod.image.size'', ''exported.host'']
               \<or> map fst attrs =
                 [''observed.timestamp'', ''exported.namespace'', ''exported.pod.name'',
                  ''exported.container.name'', ''exported.pod.image'',
                  ''exported.pod.image.size'', ''exported.host'', ''exported.pod.prefix''])
           \<and> map_of attrs ''observed.timestamp''
               = Some (Int64Value (UnixMilli (LastTimestamp event)))
           \<and> map_of attrs ''exported.namespace'' = Some (StringValue (Namespace event))
           \<and> map_of attrs ''exported.pod.name''
               = Some (StringValue (Name (InvolvedObject event)))
           \<and> map_of attrs ''exported.container.name'' = map_of attrs ''exported.pod.name''
           \<and> map_of attrs ''exported.pod.image'' = Some (StringValue imageName)
           \<and> map_of attrs ''exported.pod.image.size'' = Some (Int64Value imageSizeInt)
           \<and> map_of attrs ''exported.host'' = Some (StringValue (Host (Source event))))"
  by (simp add: Let_def handle_parsed [OF assms] added_recordAll commonAttributes_eq)

theorem attribute_set_witness:
  "accept (pulledEvent (pulledMessage ''repo/example:99cd3b4'' ''1m44.643s'' ''1m44.643s''
                          ''1169083618'') ''web-1'')
   \<and> map snd (instRecorded (durationPullHistogram (handleAddFunc
        (EventPtr (pulledEvent (pulledMessage ''repo/example:99cd3b4'' ''1m44.643s''
                                  ''1m44.643s'' ''1169083618'') ''web-1''))
        main_instruments)))
      = [[(''observed.timestamp'', Int64Value 1700000000123),
          (''exported.namespace'', StringValue ''default''),
          (''exported.pod.name'', StringValue ''web-1''),
          (''exported.container.name'', StringValue ''web-1''),
          (''exported.pod.image'', StringValue ''repo/example:99cd3b4''),
          (''exported.pod.image.size'', Int64Value 1169083618),
          (''exported.host'', StringValue ''node-1'')]]"
proof -
  let ?e = "pulledEvent (pulledMessage ''repo/example:99cd3b4'' ''1m44.643s'' ''1m44.643s''
                           ''1169083618'') ''web-1''"
  have a: "accept ?e" by (rule accept_pulledEvent)
  have p: "parseMessage (Message ?e)
           = Inr (''repo/example:99cd3b4'', 104643000000, 104643000000, 1169083618)"
    by (simp add: Message_pulledEvent parse_example1)
  have c: "commonAttributes ?e ''repo/example:99cd3b4'' 1169083618
           = [(''observed.timestamp'', Int64Value 1700000000123),
          (''exported.namespace'', StringValue ''default''),
          (''exported.pod.name'', StringValue ''web-1''),
          (''exported.container.name'', StringValue ''web-1''),
          (''exported.pod.image'', StringValue ''repo/example:99cd3b4''),
          (''exported.pod.image.size'', Int64Value 1169083618),
          (''exported.host'', StringValue ''node-1'')]"
    by (simp add: commonAttributes_eq pulledEvent_def segments_examples UnixMilli_def
          signed_divide_int_def)
  show ?thesis
    using a attribute_set [OF a p, of main_instruments]
    by (simp add: Let_def added_def main_instruments_def c)
qed

section \<open>The size token\<close>

lemma digitVal_digit: "isDigit c \<Longrightarrow> digitVal c = Some (byte c - 48)"
  by (simp add: digitVal_def isDigit_def)

lemma digit_range: "isDigit c \<Longrightarrow> 0 \<le> byte c - 48 \<and> byte c - 48 \<le> 9"
  by (simp add: isDigit_def)

lemma foldl_digits_ge:
  "list_all isDigit ds \<Longrightarrow> 0 \<le> v \<Longrightarrow> v \<le> foldl (\<lambda>v c. v * 10 + (byte c - 48)) v ds"
proof (induction ds arbitrary: v)
  case Nil
  then show ?case by simp
next
  case (Cons c cs)
  then have d: "0 \<le> byte c - 48" using digit_range [of c] by simp
  have "v * 10 + (byte c - 48) \<le> foldl (\<lambda>v c. v * 10 + (byte c - 48)) (v * 10 + (byte c - 48)) cs"
    using Cons.prems d by (intro Cons.IH) auto
  moreover have "v \<le> v * 10 + (byte c - 48)" using Cons.prems(2) d by simp
  ultimately show ?case by simp
qed

text \<open>
  The loop of \<open>ParseUint\<close> on decimal digits: the value read, unless it goes beyond
  \<open>2^64 - 1\<close>.
\<close>

lemma parseUintLoop_digits:
  "list_all isDigit ds \<Longrightarrow> 0 \<le> n \<Longrightarrow> n \<le> 18446744073709551615 \<Longrightarrow>
   parseUintLoop ds 10 1844674407370955162 18446744073709551615 n =
     (if foldl (\<lambda>v c. v * 10 + (byte c - 48)) n ds \<le> 18446744073709551615
      then (foldl (\<lambda>v c. v * 10 + (byte c - 48)) n ds, None)
      else (18446744073709551615, Some ErrRange))"
proof (induction ds arbitrary: n)
  case Nil
  then show ?case by simp
next
  case (Cons c cs)
  let ?d = "byte c - 48"
  let ?f = "foldl (\<lambda>v c. v * 10 + (byte c - 48))"
  from Cons.prems have dig: "isDigit c" and rest: "list_all isDigit cs" by simp_all
  have d: "0 \<le> ?d" "?d \<le> 9" using digit_range [OF dig] by simp_all
  have ge: "n * 10 + ?d \<le> ?f (n * 10 + ?d) cs"
    using rest Cons.prems(2) d by (intro foldl_digits_ge) auto
  show ?case
  proof (cases "n \<ge> 1844674407370955162")
    case True
    then have "?f (n * 10 + ?d) cs > 18446744073709551615" using ge d by simp
    with True d show ?thesis by (simp add: digitVal_digit [OF dig])
  next
    case False
    show ?thesis
    proof (cases "n * 10 + ?d \<ge> 18446744073709551616")
      case True
      then have big: "?f (n * 10 + ?d) cs > 18446744073709551615" using ge by simp
      have "n * 10 + ?d < 2 * 18446744073709551616" using False d by simp
      then have "(n * 10 + ?d) mod 18446744073709551616 = n * 10 + ?d - 18446744073709551616"
        using True by (simp add: mod_pos_geq)
      then have "(n * 10 + ?d) mod 18446744073709551616 < n * 10" using d by simp
      with False big d show ?thesis by (simp add: digitVal_digit [OF dig] Let_def)
    next
      case small: False
      then have m: "(n * 10 + ?d) mod 18446744073709551616 = n * 10 + ?d"
        using Cons.prems(2) d by simp
      have "parseUintLoop cs 10 1844674407370955162 18446744073709551615 (n * 10 + ?d) =
              (if ?f (n * 10 + ?d) cs \<le> 18446744073709551615
               then (?f (n * 10 + ?d) cs, None)
               else (18446744073709551615, Some ErrRange))"
        using rest Cons.prems(2) d small by (intro Cons.IH) auto
      with False small d m show ?thesis
        by (simp add: digitVal_digit [OF dig] Let_def)
    qed
  qed
qed

lemma ParseUint_digits:
  "allDigits ds \<Longrightarrow>
   ParseUint ds 10 64 =
     (if decimalValue ds \<le> 18446744073709551615 then (decimalValue ds, None)
      else (18446744073709551615, Some ErrRange))"
  using parseUintLoop_digits [of ds 0]
  by (simp add: ParseUint_def allDigits_def maxUint64_def decimalValue_def)

lemma decimalValue_nonneg: "allDigits ds \<Longrightarrow> 0 \<le> decimalValue ds"
  using foldl_digits_ge [of ds 0] by (simp add: allDigits_def decimalValue_def)

lemma digit_no_sign: "isDigit c \<Longrightarrow> c \<noteq> CHR ''-'' \<and> c \<noteq> CHR ''+''"
  by (auto simp: isDigit_def byte_def)

lemma ParseInt_unsigned:
  assumes "allDigits ds"
  shows "ParseInt ds 10 64 =
           (if decimalValue ds < 2 ^ 63 then Inr (word_of_int (decimalValue ds)) else Inl ErrRange)"
proof -
  from assms obtain c cs where ds: "ds = c # cs" and c: "isDigit c"
    by (cases ds) (auto simp: allDigits_def)
  have hd: "hd ds \<noteq> CHR ''-''" "hd ds \<noteq> CHR ''+''" "ds \<noteq> []"
    using ds digit_no_sign [OF c] by simp_all
  show ?thesis
    using hd decimalValue_nonneg [OF assms]
    by (simp add: ParseInt_def ParseUint_digits [OF assms] Let_def)
qed

lemma ParseInt_plus:
  assumes "allDigits ds"
  shows "ParseInt (CHR ''+'' # ds) 10 64 =
           (if decimalValue ds < 2 ^ 63 then Inr (word_of_int (decimalValue ds)) else Inl ErrRange)"
  by (simp add: ParseInt_def ParseUint_digits [OF assms] Let_def)

lemma ParseInt_minus:
  assumes "allDigits ds"
  shows "ParseInt (CHR ''-'' # ds) 10 64 =
           (if decimalValue ds \<le> 2 ^ 63 then Inr (- word_of_int (decimalValue ds))
            else Inl ErrRange)"
  by (simp add: ParseInt_def ParseUint_digits [OF assms] Let_def)

lemma size_failure_not_recorded:
  assumes "Sscanf (Message event) pullFormat [[], [], [], []] = (4, vars, None)"
    and "ParseInt (vars ! 3) 10 64 = Inl e"
  shows "handleAddFunc (EventPtr event) m = m"
proof -
  have "\<exists>pe. parseMessage (Message event) = Inl pe"
    using assms by (simp add: parseMessage_def Let_def split: sum.splits)
  then show ?thesis
    by (auto simp: handleAddFunc_unfold processPulled_unfold split: obj.splits)
qed

lemma allDigits_5: "allDigits ''5''" "decimalValue ''5'' = 5"
  by (simp_all add: allDigits_def isDigit_def byte_def decimalValue_def)

lemma size_example5: "ParseInt ''-5'' 10 64 = Inr (- 5)"
  using ParseInt_minus [OF allDigits_5(1)] by (simp add: allDigits_5(2))

lemma parse_example5:
  "parseMessage (pulledMessage ''repo/example:99cd3b4'' ''15s'' ''45s'' ''-5'')
   = Inr (''repo/example:99cd3b4'', 15000000000, 45000000000, - 5)"
  by (simp add: parseMessage_def scan_example5 duration_example2 size_example5)

text \<open>
  Claim C7, as amended.  The size token is converted by \<open>strconv.ParseInt\<close> in base 10
  to a signed integer of 64 bits: decimal digits with an optional sign in front.  For a
  token of digits, alone or after a plus sign, the result is its value if that is below
  \<open>2^63\<close> and a range error otherwise; after a minus sign the result is the negated
  value if the value is at most \<open>2^63\<close> and a range error otherwise, so a negative
  size within the range is accepted.  Whenever the conversion of the size token fails,
  the handler records nothing.
\<close>

theorem size_token_signed:
  assumes "allDigits ds"
  shows "ParseInt ds 10 64 =
           (if decimalValue ds < 2 ^ 63 then Inr (word_of_int (decimalValue ds))
            else Inl ErrRange)
         \<and> ParseInt (CHR ''+'' # ds) 10 64 =
           (if decimalValue ds < 2 ^ 63 then Inr (word_of_int (decimalValue ds))
            else Inl ErrRange)
         \<and> ParseInt (CHR ''-'' # ds) 10 64 =
           (if decimalValue ds \<le> 2 ^ 63 then Inr (- word_of_int (decimalValue ds))
            else Inl ErrRange)
         \<and> (decimalValue ds < 2 ^ 63
              \<longrightarrow> sint (word_of_int (decimalValue ds) :: 64 word) = decimalValue ds)
         \<and> (decimalValue ds \<le> 2 ^ 63
              \<longrightarrow> sint (- word_of_int (decimalValue ds) :: 64 word) = - decimalValue ds)
         \<and> (\<forall>event vars e m.
               Sscanf (Message event) pullFormat [[], [], [], []] = (4, vars, None)
               \<and> ParseInt (vars ! 3) 10 64 = Inl e
               \<longrightarrow> handleAddFunc (EventPtr event) m = m)"
proof -
  have nn: "0 \<le> decimalValue ds" by (rule decimalValue_nonneg [OF assms])
  have pos: "decimalValue ds < 2 ^ 63
             \<longrightarrow> sint (word_of_int (decimalValue ds) :: 64 word) = decimalValue ds"
    using nn by (auto intro!: sint_word_of_int_64)
  have neg: "decimalValue ds \<le> 2 ^ 63
        \<longrightarrow> sint (- word_of_int (decimalValue ds) :: 64 word) = - decimalValue ds"
  proof (intro impI)
    assume le: "decimalValue ds \<le> 2 ^ 63"
    have "sint (word_of_int (- decimalValue ds) :: 64 word) = - decimalValue ds"
      using nn le by (intro sint_word_of_int_64) auto
    then show "sint (- word_of_int (decimalValue ds) :: 64 word) = - decimalValue ds"
      by simp
  qed
  show ?thesis
    using pos neg size_failure_not_recorded
    by (simp add: ParseInt_unsigned [OF assms] ParseInt_plus [OF assms]
          ParseInt_minus [OF assms])
qed

lemma allDigits_2_63:
  "allDigits ''9223372036854775808''" "decimalValue ''9223372036854775808'' = 9223372036854775808"
  by (simp_all add: allDigits_def isDigit_def byte_def decimalValue_def)

theorem size_token_signed_witness:
  "allDigits ''9223372036854775808''
   \<and> ParseInt ''9223372036854775808'' 10 64 = Inl ErrRange
   \<and> ParseInt ''-9223372036854775808'' 10 64 = Inr (- 9223372036854775808)
   \<and> sint (- 9223372036854775808 :: 64 word) = - 9223372036854775808"
  using allDigits_2_63(1) size_token_signed [OF allDigits_2_63(1)]
  by (simp add: allDigits_2_63(2))

text \<open>
  The claim as it was stated fails for a size token with a minus sign: the message below
  gives the size as \<open>-5\<close>; it is parsed, and the gauge records the negative value.
\<close>

theorem size_token_signed_counterexample:
  "parseMessage (pulledMessage ''repo/example:99cd3b4'' ''15s'' ''45s'' ''-5'')
     = Inr (''repo/example:99cd3b4'', 15000000000, 45000000000, - 5)
   \<and> map (\<lambda>(v, attrs). sint v) (instRecorded (imageSizeGauge (handleAddFunc
        (EventPtr (pulledEvent (pulledMessage ''repo/example:99cd3b4'' ''15s'' ''45s'' ''-5'')
                     ''web-1'')) main_instruments))) = [- 5]"
proof -
  let ?e = "pulledEvent (pulledMessage ''repo/example:99cd3b4'' ''15s'' ''45s'' ''-5'') ''web-1''"
  have a: "accept ?e" by (rule accept_pulledEvent)
  have p: "parseMessage (Message ?e) = Inr (''repo/example:99cd3b4'', 15000000000, 45000000000, - 5)"
    by (simp add: Message_pulledEvent parse_example5)
  have h: "handleAddFunc (EventPtr ?e) main_instruments
           = recordAll main_instruments (- 5) 15000000000 45000000000
               (commonAttributes ?e ''repo/example:99cd3b4'' (- 5))"
    by (rule handle_parsed [OF a p])
  show ?thesis
    unfolding h by (simp add: parse_example5 recordAll_eq main_instruments_def)
qed

section \<open>Messages that do not parse\<close>















section \<open>Scanning a message of the expected form\<close>

lemma Decode_ascii: "byte c < 128 \<Longrightarrow> DecodeRuneInString (c # s) = (byte c, 1)"
  by (simp add: DecodeRuneInString.simps RuneSelf_def)

lemma getRune_ascii: "byte c < 128 \<Longrightarrow> getRune (c # s) = Some (byte c, s)"
  by (simp add: getRune_def Decode_ascii)

lemma getRune_Nil: "getRune [] = None"
  by (simp add: getRune_def)

lemma byte_nonneg: "0 \<le> byte c"
  unfolding byte_def by (metis of_nat_of_char of_nat_0_le_iff)

lemma isSpace_32: "isSpace 32"
  by (simp add: isSpace_def space_def)

lemma byte_space: "byte CHR '' '' = 32"
  by (simp add: byte_def)

lemma AppendRune_ascii: "byte c < 128 \<Longrightarrow> AppendRune (byte c) = [c]"
  using byte_nonneg [of c] by (simp add: AppendRune_def chr_def) (simp add: byte_def)

lemma isSpace_10_13: "isSpace 10" "isSpace 13"
  by (simp_all add: isSpace_def space_def)

lemma wordChar_not_special:
  "wordChar c \<Longrightarrow> byte c \<noteq> 10 \<and> byte c \<noteq> 13 \<and> byte c \<noteq> 32"
  unfolding wordChar_def using isSpace_10_13 isSpace_32 by metis

lemma advance_Nil: "advance [] i inp = Inr (int i, inp)"
  by (simp add: advance.simps)

lemma advance_literal:
  "wordChar c \<Longrightarrow> byte c \<noteq> 37 \<Longrightarrow> advance (c # fmt) i (c # inp) = advance fmt (Suc i) inp"
  by (subst advance.simps)
     (simp add: wordChar_def Decode_ascii mustReadRune_def getRune_ascii)

lemma advance_eof:
  "wordChar c \<Longrightarrow> byte c \<noteq> 37 \<Longrightarrow> advance (c # fmt) i [] = Inl ErrUnexpectedEOF"
  by (subst advance.simps)
     (simp add: wordChar_def Decode_ascii mustReadRune_def getRune_Nil)

lemma advance_mismatch:
  "wordChar c \<Longrightarrow> byte c \<noteq> 37 \<Longrightarrow> byte x < 128 \<Longrightarrow> byte x \<noteq> byte c \<Longrightarrow>
   advance (c # fmt) i (x # inp) = Inr (- 1, x # inp)"
  by (subst advance.simps)
     (simp add: wordChar_def Decode_ascii mustReadRune_def getRune_ascii)

lemma advance_verb:
  "byte v < 128 \<Longrightarrow> byte v \<noteq> 37 \<Longrightarrow> advance (CHR ''%'' # v # fs) i inp = Inr (int i, inp)"
  by (subst advance.simps)
     (simp add: Decode_ascii byte_def isSpace_def space_def)

lemma fmtSpaces_single:
  "wordChar f \<Longrightarrow> fmtSpaces (CHR '' '' # f # fs) 0 False = (0, True, f # fs)"
  by (subst fmtSpaces.simps, subst fmtSpaces.simps)
     (simp add: wordChar_def Decode_ascii byte_space isSpace_32)

lemma skipBlanks_single:
  "wordChar x \<Longrightarrow> skipBlanks (CHR '' '' # x # xs) = x # xs"
  by (subst skipBlanks.simps, subst skipBlanks.simps)
     (simp add: wordChar_def getRune_ascii byte_space isSpace_32)

lemma advance_space:
  "wordChar f \<Longrightarrow> wordChar x \<Longrightarrow>
   advance (CHR '' '' # f # fs) i (CHR '' '' # x # xs) = advance (f # fs) (Suc i) (x # xs)"
  by (subst advance.simps)
     (simp add: Decode_ascii byte_space isSpace_32 fmtSpaces_single matchTrailingSpace_def
        getRune_ascii skipBlanks_single)

lemma SkipSpace_word: "wordChar x \<Longrightarrow> SkipSpace (x # xs) = Inr (x # xs)"
  using wordChar_not_special [of x]
  by (subst SkipSpace.simps) (simp add: wordChar_def getRune_ascii)

lemma readToken_word:
  "list_all wordChar tok \<Longrightarrow> readToken (tok @ CHR '' '' # rest) = (tok, CHR '' '' # rest)"
proof (induction tok)
  case Nil
  show ?case by (subst readToken.simps) (simp add: getRune_ascii byte_space isSpace_32)
next
  case (Cons c cs)
  then have c: "byte c < 128" "\<not> isSpace (byte c)" by (simp_all add: wordChar_def)
  have "readToken (cs @ CHR '' '' # rest) = (cs, CHR '' '' # rest)"
    using Cons by simp
  with c show ?case
    by (subst readToken.simps) (simp add: getRune_ascii AppendRune_ascii)
qed

lemma convertString_s:
  assumes "isWord tok"
  shows "convertString 115 (tok @ CHR '' '' # rest) = Inr (tok, CHR '' '' # rest)"
proof -
  from assms obtain x xs where t: "tok = x # xs" and x: "wordChar x"
    by (cases tok) (auto simp: isWord_def)
  have sk: "SkipSpace (tok @ CHR '' '' # rest) = Inr (tok @ CHR '' '' # rest)"
    using SkipSpace_word [OF x] t by simp
  have ne: "notEOF (tok @ CHR '' '' # rest) = Inr ()"
    using x t by (simp add: notEOF_def getRune_ascii wordChar_def)
  have rt: "readToken (tok @ CHR '' '' # rest) = (tok, CHR '' '' # rest)"
    using assms by (intro readToken_word) (simp add: isWord_def)
  show ?thesis by (simp add: convertString_def sk ne token_def rt)
qed

lemma byte_quote: "byte CHR 0x22 = 34" "byte CHR 0x5C = 92" "byte CHR 0x0A = 10"
  by (simp_all add: byte_def)

lemma byte_inject: "byte c = byte d \<Longrightarrow> c = d"
  by (simp add: byte_def)

lemma plainChar_bytes:
  "plainChar c \<Longrightarrow> byte c < 128 \<and> byte c \<noteq> 34 \<and> byte c \<noteq> 92 \<and> byte c \<noteq> 10"
  unfolding plainChar_def using byte_quote byte_inject by metis

lemma readDoubleQuoted_plain:
  "list_all plainChar ref \<Longrightarrow>
   readDoubleQuoted (ref @ CHR 0x22 # rest) = Inr (ref @ [CHR 0x22], rest)"
proof (induction ref)
  case Nil
  have "AppendRune 34 = [CHR 0x22]" using AppendRune_ascii [of "CHR 0x22"] by (simp add: byte_quote)
  then show ?case
    by (subst readDoubleQuoted.simps) (simp add: getRune_ascii byte_quote)
next
  case (Cons c cs)
  then have c: "byte c < 128" "byte c \<noteq> 34" "byte c \<noteq> 92"
    using plainChar_bytes [of c] by simp_all
  have "readDoubleQuoted (cs @ CHR 0x22 # rest) = Inr (cs @ [CHR 0x22], rest)"
    using Cons by simp
  with c show ?case
    by (subst readDoubleQuoted.simps) (simp add: getRune_ascii AppendRune_ascii)
qed

lemma ValidString_ascii: "list_all (\<lambda>c. byte c < 128) s \<Longrightarrow> ValidString s"
  by (induction s) (simp_all add: RuneSelf_def)

lemma Unquote_plain:
  assumes "list_all plainChar ref"
  shows "Unquote (CHR 0x22 # ref @ [CHR 0x22]) = Inr ref"
proof -
  have nq: "\<And>x. x \<in> set ref \<Longrightarrow> x \<noteq> CHR 0x22" "CHR 0x5C \<notin> set ref" "CHR 0x0A \<notin> set ref"
    using assms by (auto simp: list_all_iff plainChar_def)
  have inner: "takeWhile (\<lambda>c. c \<noteq> CHR 0x22) (ref @ [CHR 0x22]) = ref"
    using nq(1) by (simp add: takeWhile_append2)
  have v: "ValidString ref"
    using assms by (intro ValidString_ascii) (auto simp: list_all_iff plainChar_def)
  show ?thesis
    using nq(2,3) v by (simp add: Unquote_def inner Let_def)
qed

lemma doScanf_Nil: "doScanf [] a np inp = tooManyOperands a np"
  by (simp add: doScanf.simps)

lemma doScanf_literal:
  "fmt \<noteq> [] \<Longrightarrow> advance fmt 0 inp = Inr (int w, inp1) \<Longrightarrow> 0 < w \<Longrightarrow>
   doScanf fmt a np inp = doScanf (drop w fmt) a np inp1"
  by (subst doScanf.simps) simp

lemma doScanf_fail:
  "fmt \<noteq> [] \<Longrightarrow> advance fmt 0 inp = Inl e \<Longrightarrow> doScanf fmt a np inp = (np, a, Some e)"
  by (subst doScanf.simps) simp

lemma doScanf_verb:
  assumes v: "byte v < 128" "byte v \<noteq> 37" "byte v \<noteq> 99"
    and x: "wordChar x" and np: "np < length a"
    and cs: "convertString (byte v) (x # xs) = Inr (val, inp3)"
  shows "doScanf (CHR ''%'' # v # fs) a np (x # xs) = doScanf fs (a[np := val]) (Suc np) inp3"
  using v np cs
  by (subst doScanf.simps)
     (simp add: advance_verb Decode_ascii SkipSpace_word [OF x])

lemma wordChar_quote: "wordChar CHR 0x22"
  by (simp add: wordChar_def byte_def isSpace_def space_def)

lemma convertString_q:
  assumes "list_all plainChar ref"
  shows "convertString 113 (CHR 0x22 # ref @ CHR 0x22 # rest) = Inr (ref, rest)"
proof -
  have sk: "SkipSpace (CHR 0x22 # ref @ CHR 0x22 # rest) = Inr (CHR 0x22 # ref @ CHR 0x22 # rest)"
    by (rule SkipSpace_word [OF wordChar_quote])
  have g: "getRune (CHR 0x22 # ref @ CHR 0x22 # rest) = Some (34, ref @ CHR 0x22 # rest)"
    using getRune_ascii [of "CHR 0x22"] by (simp add: byte_quote)
  have q: "quotedString (CHR 0x22 # ref @ CHR 0x22 # rest) = Inr (ref, rest)"
    by (simp add: quotedString_def g readDoubleQuoted_plain [OF assms] Unquote_plain [OF assms])
  show ?thesis by (simp add: convertString_def sk notEOF_def g q)
qed

text \<open>The five literal parts of the format, each matched against the same text.\<close>

lemma advance_part1:
  "wordChar x \<Longrightarrow>
   advance pullFormat 0 (''Successfully pulled image '' @ x # xs) = Inr (int 26, x # xs)"
  by (simp add: pullFormat_def advance_literal advance_space advance_verb
        wordChar_def byte_def isSpace_def space_def)

lemma advance_part2:
  "wordChar x \<Longrightarrow>
   advance ('' in %s (%s including waiting). Image size: %s bytes.'') 0 ('' in '' @ x # xs)
   = Inr (int 4, x # xs)"
  by (simp add: advance_literal advance_space advance_verb
        wordChar_def byte_def isSpace_def space_def)

lemma advance_part3:
  "advance ('' (%s including waiting). Image size: %s bytes.'') 0 ('' ('' @ xs)
   = Inr (int 2, xs)"
  by (simp add: advance_literal advance_space advance_verb
        wordChar_def byte_def isSpace_def space_def)

lemma advance_part4:
  "wordChar x \<Longrightarrow>
   advance ('' including waiting). Image size: %s bytes.'') 0
     ('' including waiting). Image size: '' @ x # xs)
   = Inr (int 33, x # xs)"
  by (simp add: advance_literal advance_space advance_verb
        wordChar_def byte_def isSpace_def space_def)

lemma advance_part5:
  "advance '' bytes.'' 0 ('' bytes.'' @ xs) = Inr (int 7, xs)"
  by (simp add: advance_literal advance_space advance_Nil
        wordChar_def byte_def isSpace_def space_def)

lemma advance_part5_no_period:
  "advance '' bytes.'' 0 '' bytes'' = Inl ErrUnexpectedEOF"
  by (simp add: advance_literal advance_space advance_eof
        wordChar_def byte_def isSpace_def space_def)

lemma isWord_Cons: "isWord w \<Longrightarrow> \<exists>x xs. w = x # xs \<and> wordChar x"
  by (cases w) (auto simp: isWord_def)

text \<open>
  The operands \<open>doScanf\<close> stores while it goes through the format, on a message made
  of the text of the format with a plain image reference between double quotes and three
  words in the places of the verbs; \<open>rest\<close> is what follows the size token.
\<close>

lemma doScanf_pulled:
  assumes r: "list_all plainChar ref" and w1: "isWord d1" and w2: "isWord d2" and w3: "isWord n"
  shows "doScanf pullFormat [[], [], [], []] 0
           (''Successfully pulled image '' @ CHR 0x22 # ref @ CHR 0x22 # '' in '' @ d1 @ '' (''
              @ d2 @ '' including waiting). Image size: '' @ n @ CHR '' '' # rest)
         = doScanf '' bytes.'' [ref, d1, d2, n] 4 (CHR '' '' # rest)"
proof -
  obtain x1 t1 where d1: "d1 = x1 # t1" and x1: "wordChar x1" using isWord_Cons [OF w1] by blast
  obtain x2 t2 where d2: "d2 = x2 # t2" and x2: "wordChar x2" using isWord_Cons [OF w2] by blast
  obtain x3 t3 where n: "n = x3 # t3" and x3: "wordChar x3" using isWord_Cons [OF w3] by blast
  let ?a0 = "[[], [], [], []] :: string list"
  let ?i5 = "CHR '' '' # rest"
  let ?i4 = "'' including waiting). Image size: '' @ n @ ?i5"
  let ?i3 = "'' ('' @ d2 @ ?i4"
  let ?i2 = "'' in '' @ d1 @ ?i3"
  let ?i1 = "CHR 0x22 # ref @ CHR 0x22 # ?i2"
  let ?f2 = "'' in %s (%s including waiting). Image size: %s bytes.''"
  let ?f3 = "'' (%s including waiting). Image size: %s bytes.''"
  let ?f4 = "'' including waiting). Image size: %s bytes.''"
  let ?f5 = "'' bytes.''"
  have s1: "doScanf pullFormat ?a0 0 (''Successfully pulled image '' @ ?i1)
            = doScanf (drop 26 pullFormat) ?a0 0 ?i1"
    by (rule doScanf_literal [OF _ advance_part1 [OF wordChar_quote]])
       (simp_all add: pullFormat_def)
  have f1: "drop 26 pullFormat = CHR ''%'' # CHR ''q'' # ?f2" by (simp add: pullFormat_def)
  have s2: "doScanf (CHR ''%'' # CHR ''q'' # ?f2) ?a0 0 ?i1 = doScanf ?f2 (?a0[0 := ref]) (Suc 0) ?i2"
    by (rule doScanf_verb [OF _ _ _ wordChar_quote])
       (simp_all add: byte_def convertString_q [OF r])
  have s3: "doScanf ?f2 [ref, [], [], []] (Suc 0) ('' in '' @ x1 # t1 @ ?i3)
            = doScanf (drop 4 ?f2) [ref, [], [], []] (Suc 0) (x1 # t1 @ ?i3)"
    by (rule doScanf_literal [OF _ advance_part2 [OF x1]]) simp_all
  have c4: "convertString (byte CHR ''s'') (x1 # t1 @ ?i3) = Inr (d1, ?i3)"
    using convertString_s [OF w1, of "CHR ''('' # d2 @ ?i4"] by (simp add: d1 byte_def)
  have s4: "doScanf (CHR ''%'' # CHR ''s'' # ?f3) [ref, [], [], []] (Suc 0) (x1 # t1 @ ?i3)
            = doScanf ?f3 ([ref, [], [], []][Suc 0 := d1]) (Suc (Suc 0)) ?i3"
    by (rule doScanf_verb [OF _ _ _ x1 _ c4]) (simp_all add: byte_def)
  have s5: "doScanf ?f3 [ref, d1, [], []] (Suc (Suc 0)) ('' ('' @ x2 # t2 @ ?i4)
            = doScanf (drop 2 ?f3) [ref, d1, [], []] (Suc (Suc 0)) (x2 # t2 @ ?i4)"
    by (rule doScanf_literal [OF _ advance_part3]) simp_all
  have c6: "convertString (byte CHR ''s'') (x2 # t2 @ ?i4) = Inr (d2, ?i4)"
    using convertString_s [OF w2, of "''including waiting). Image size: '' @ n @ ?i5"]
    by (simp add: d2 byte_def)
  have s6: "doScanf (CHR ''%'' # CHR ''s'' # ?f4) [ref, d1, [], []] (Suc (Suc 0)) (x2 # t2 @ ?i4)
            = doScanf ?f4 ([ref, d1, [], []][Suc (Suc 0) := d2]) (Suc (Suc (Suc 0))) ?i4"
    by (rule doScanf_verb [OF _ _ _ x2 _ c6]) (simp_all add: byte_def)
  have s7: "doScanf ?f4 [ref, d1, d2, []] (Suc (Suc (Suc 0)))
              ('' including waiting). Image size: '' @ x3 # t3 @ ?i5)
            = doScanf (drop 33 ?f4) [ref, d1, d2, []] (Suc (Suc (Suc 0))) (x3 # t3 @ ?i5)"
    by (rule doScanf_literal [OF _ advance_part4 [OF x3]]) simp_all
  have c8: "convertString (byte CHR ''s'') (x3 # t3 @ ?i5) = Inr (n, ?i5)"
    using convertString_s [OF w3, of rest] by (simp add: n byte_def)
  have s8: "doScanf (CHR ''%'' # CHR ''s'' # ?f5) [ref, d1, d2, []] (Suc (Suc (Suc 0)))
              (x3 # t3 @ ?i5)
            = doScanf ?f5 ([ref, d1, d2, []][Suc (Suc (Suc 0)) := n]) (Suc (Suc (Suc (Suc 0)))) ?i5"
    by (rule doScanf_verb [OF _ _ _ x3 _ c8]) (simp_all add: byte_def)
  have n4: "Suc (Suc (Suc (Suc 0))) = 4" by simp
  show ?thesis
    using s1 s2 s3 s4 s5 s6 s7 s8
    by (simp add: f1 d1 d2 n n4)
qed

lemma Sscanf_pulled:
  assumes "list_all plainChar ref" and "isWord d1" and "isWord d2" and "isWord n"
  shows "Sscanf (pulledMessage ref d1 d2 n @ extra) pullFormat [[], [], [], []]
         = (4, [ref, d1, d2, n], None)"
proof -
  have m: "pulledMessage ref d1 d2 n @ extra
           = ''Successfully pulled image '' @ CHR 0x22 # ref @ CHR 0x22 # '' in '' @ d1 @ '' (''
              @ d2 @ '' including waiting). Image size: '' @ n @ CHR '' '' # (''bytes.'' @ extra)"
    by (simp add: pulledMessage_def)
  have e: "doScanf '' bytes.'' [ref, d1, d2, n] 4 (CHR '' '' # (''bytes.'' @ extra))
           = doScanf (drop 7 '' bytes.'') [ref, d1, d2, n] 4 extra"
    using advance_part5 [of extra]
    by (intro doScanf_literal) simp_all
  show ?thesis
    unfolding Sscanf_def m doScanf_pulled [OF assms] e
    by (simp add: doScanf_Nil tooManyOperands_def)
qed

lemma Sscanf_pulled_no_period:
  assumes "list_all plainChar ref" and "isWord d1" and "isWord d2" and "isWord n"
  shows "Sscanf (pulledMessageNoPeriod ref d1 d2 n) pullFormat [[], [], [], []]
         = (4, [ref, d1, d2, n], Some ErrUnexpectedEOF)"
proof -
  have m: "pulledMessageNoPeriod ref d1 d2 n
           = ''Successfully pulled image '' @ CHR 0x22 # ref @ CHR 0x22 # '' in '' @ d1 @ '' (''
              @ d2 @ '' including waiting). Image size: '' @ n @ CHR '' '' # ''bytes''"
    by (simp add: pulledMessageNoPeriod_def)
  have e: "doScanf '' bytes.'' [ref, d1, d2, n] 4 (CHR '' '' # ''bytes'')
           = (4, [ref, d1, d2, n], Some ErrUnexpectedEOF)"
    using advance_part5_no_period
    by (intro doScanf_fail) simp_all
  show ?thesis
    unfolding Sscanf_def m doScanf_pulled [OF assms] e by simp
qed

lemma Sscanf_wrong_head:
  assumes "byte c < 128" and "c \<noteq> CHR ''S''"
  shows "Sscanf (c # msg) pullFormat [[], [], [], []]
         = (0, [[], [], [], []], Some (errorString ''input does not match format''))"
proof -
  have ne: "byte c \<noteq> byte CHR ''S''" using assms(2) byte_inject by blast
  have "advance pullFormat 0 (c # msg) = Inr (- 1, c # msg)"
    unfolding pullFormat_def
    by (rule advance_mismatch [OF _ _ assms(1) ne])
       (simp_all add: wordChar_def byte_def isSpace_def space_def)
  then show ?thesis
    unfolding Sscanf_def
    by (subst doScanf.simps) (simp add: pullFormat_def)
qed

text \<open>
  The parse of such a message, with whatever follows it, is the conversion of its three
  tokens.
\<close>

lemma parseMessage_pulled:
  assumes "list_all plainChar ref" and "isWord d1" and "isWord d2" and "isWord n"
  shows "parseMessage (pulledMessage ref d1 d2 n @ extra) =
           (case ParseDuration d1 of
              Inl e \<Rightarrow> Inl (DurationPullFailed e)
            | Inr durationPull \<Rightarrow>
                (case ParseDuration d2 of
                   Inl e \<Rightarrow> Inl (DurationWaitFailed e)
                 | Inr durationWithWait \<Rightarrow>
                     (case ParseInt n 10 64 of
                        Inl e \<Rightarrow> Inl (ImageSizeFailed e)
                      | Inr imageSizeInt \<Rightarrow>
                          Inr (ref, durationPull, durationWithWait, imageSizeInt))))"
  by (simp add: parseMessage_def Sscanf_pulled [OF assms])


section \<open>Messages of the grammar\<close>

lemma plain_example: "list_all plainChar ''repo/example:99cd3b4''"
  by (simp add: plainChar_def byte_def)

lemma word_examples:
  "isWord ''1m44.643s''" "isWord ''15s''" "isWord ''45s''" "isWord ''500''"
  "isWord ''1169083618''"
  by (simp_all add: isWord_def wordChar_def byte_def isSpace_def space_def)




text \<open>
  Claim C8, as amended.  The format is matched from the first character of the message,
  and the scan stops where the format ends: what follows the final \<open>bytes.\<close> is not
  looked at, so a message of the grammar with more text after it parses to the same
  record.  The period after \<open>bytes\<close> is part of the format and must be there: the same
  message without it does not parse, the scan ends with \<open>unexpected EOF\<close> after its
  four operands.  A message that does not begin with the \<open>S\<close> of the format does not
  parse.
\<close>

theorem grammar_anchoring:
  assumes "list_all plainChar ref" and "isWord d1" and "isWord d2" and "isWord n"
  shows "parseMessage (pulledMessage ref d1 d2 n @ extra) = parseMessage (pulledMessage ref d1 d2 n)
         \<and> parseMessage (pulledMessageNoPeriod ref d1 d2 n)
             = Inl (ScanFailed 4 (Some ErrUnexpectedEOF))
         \<and> (\<forall>c. byte c < 128 \<and> c \<noteq> CHR ''S''
               \<longrightarrow> parseMessage (c # pulledMessage ref d1 d2 n @ extra)
                   = Inl (ScanFailed 0 (Some (errorString ''input does not match format''))))"
proof -
  have "parseMessage (pulledMessage ref d1 d2 n @ extra)
        = parseMessage (pulledMessage ref d1 d2 n @ [])"
    by (simp only: parseMessage_pulled [OF assms])
  then have 1: "parseMessage (pulledMessage ref d1 d2 n @ extra)
                = parseMessage (pulledMessage ref d1 d2 n)" by simp
  have 2: "parseMessage (pulledMessageNoPeriod ref d1 d2 n)
           = Inl (ScanFailed 4 (Some ErrUnexpectedEOF))"
    by (simp add: parseMessage_def Sscanf_pulled_no_period [OF assms])
  have 3: "\<forall>c. byte c < 128 \<and> c \<noteq> CHR ''S''
               \<longrightarrow> parseMessage (c # pulledMessage ref d1 d2 n @ extra)
                   = Inl (ScanFailed 0 (Some (errorString ''input does not match format'')))"
    by (simp add: parseMessage_def Sscanf_wrong_head)
  from 1 2 3 show ?thesis by blast
qed

theorem grammar_anchoring_witness:
  "list_all plainChar ''repo/example:99cd3b4'' \<and> isWord ''15s'' \<and> isWord ''45s''
   \<and> isWord ''500''
   \<and> parseMessage (pulledMessage ''repo/example:99cd3b4'' ''15s'' ''45s'' ''500''
                      @ '' Pulled on the second try.'')
     = Inr (''repo/example:99cd3b4'', 15000000000, 45000000000, 500)
   \<and> parseMessage (pulledMessageNoPeriod ''repo/example:99cd3b4'' ''15s'' ''45s'' ''500'')
     = Inl (ScanFailed 4 (Some ErrUnexpectedEOF))"
  using plain_example word_examples(2,3,4)
        grammar_anchoring [OF plain_example word_examples(2) word_examples(3) word_examples(4),
          of "'' Pulled on the second try.''"]
  by (simp add: parse_example2)

text \<open>
  The claim as it was stated fails on both counts.  The first message below is the
  message of the first scenario with more text after \<open>bytes.\<close>: it parses.  The
  second is the same message without the period: it does not parse.
\<close>

theorem grammar_anchoring_counterexample:
  "parseMessage (pulledMessage ''repo/example:99cd3b4'' ''1m44.643s'' ''1m44.643s''
                   ''1169083618'' @ '' (cached layers: 3)'')
     = Inr (''repo/example:99cd3b4'', 104643000000, 104643000000, 1169083618)
   \<and> parseMessage (pulledMessageNoPeriod ''repo/example:99cd3b4'' ''1m44.643s'' ''1m44.643s''
                     ''1169083618'')
     = Inl (ScanFailed 4 (Some ErrUnexpectedEOF))"
proof -
  have n: "ParseInt ''1169083618'' 10 64 = Inr 1169083618"
    using ParseInt_digits [OF _ _ _ uint_example1] by simp
  have 1: "parseMessage (pulledMessage ''repo/example:99cd3b4'' ''1m44.643s'' ''1m44.643s''
                   ''1169083618'' @ '' (cached layers: 3)'')
     = Inr (''repo/example:99cd3b4'', 104643000000, 104643000000, 1169083618)"
    unfolding parseMessage_pulled [OF plain_example word_examples(1) word_examples(1)
                word_examples(5)]
    by (simp add: duration_example1 n)
  have 2: "parseMessage (pulledMessageNoPeriod ''repo/example:99cd3b4'' ''1m44.643s''
                    ''1m44.643s'' ''1169083618'')
     = Inl (ScanFailed 4 (Some ErrUnexpectedEOF))"
    by (simp add: parseMessage_def
          Sscanf_pulled_no_period [OF plain_example word_examples(1) word_examples(1)
            word_examples(5)])
  from 1 2 show ?thesis by (rule conjI)
qed

end
